theory Spec2Isabelle
  imports Complex_Main
begin

section \<open>Values, errors and paths\<close>

text \<open>
  The program is \<^verbatim>\<open>src/patreon_archiver/main.py\<close>. It reads JSON documents from a
  remote API, writes files below an output directory and hands media URIs to an external
  downloader. A JSON document as Python's \<^verbatim>\<open>json\<close> module returns it: \<open>JObj\<close> is a
  \<^verbatim>\<open>dict\<close> in insertion order (looked up with \<open>map_of\<close>), \<open>JStr\<close> a \<^verbatim>\<open>str\<close>, \<open>JNull\<close> is
  \<^verbatim>\<open>None\<close>. Numbers are integers only; no value the program reads is a float.
\<close>

datatype json =
    JNull
  | JBool bool
  | JNum int
  | JStr string
  | JArr "json list"
  | JObj "(string \<times> json) list"

text \<open>Every exception the modelled code can raise is a value.\<close>

datatype error =
    KeyError string
  | TypeError
  | AttributeError
  | JSONDecodeError
  | HTTPError nat
  | RequestException
  | FileNotFoundError
  | FileExistsError
  | NotADirectoryError
  | ValueError
  | Abort

text \<open>Sequencing of computations that may raise, without state.\<close>

definition thenE :: "error + 'a \<Rightarrow> ('a \<Rightarrow> error + 'b) \<Rightarrow> error + 'b" where
  "thenE m f = (case m of Inl e \<Rightarrow> Inl e | Inr x \<Rightarrow> f x)"

text \<open>
  \<^verbatim>\<open>v[k]\<close> with a string key: a \<^verbatim>\<open>dict\<close> without the key raises \<^verbatim>\<open>KeyError\<close>, every other
  value raises \<^verbatim>\<open>TypeError\<close> (lists and strings want integer indices, the rest is not
  subscriptable).
\<close>

fun subscript :: "json \<Rightarrow> string \<Rightarrow> error + json" where
  "subscript (JObj kvs) k = (case map_of kvs k of Some v \<Rightarrow> Inr v | None \<Rightarrow> Inl (KeyError k))"
| "subscript JNull k = Inl TypeError"
| "subscript (JBool b) k = Inl TypeError"
| "subscript (JNum n) k = Inl TypeError"
| "subscript (JStr s) k = Inl TypeError"
| "subscript (JArr xs) k = Inl TypeError"

text \<open>
  What a \<^verbatim>\<open>for\<close> loop iterates over: the elements of a list, the keys of a dict, the
  characters of a string; anything else is not iterable.
\<close>

fun py_iter :: "json \<Rightarrow> error + json list" where
  "py_iter (JArr xs) = Inr xs"
| "py_iter (JObj kvs) = Inr (map (\<lambda>kv. JStr (fst kv)) kvs)"
| "py_iter (JStr s) = Inr (map (\<lambda>c. JStr [c]) s)"
| "py_iter JNull = Inl TypeError"
| "py_iter (JBool b) = Inl TypeError"
| "py_iter (JNum n) = Inl TypeError"

text \<open>Truth value testing, as \<^verbatim>\<open>while next_uri:\<close> does it.\<close>

fun truthy :: "json \<Rightarrow> bool" where
  "truthy JNull = False"
| "truthy (JBool b) = b"
| "truthy (JNum n) = (n \<noteq> 0)"
| "truthy (JStr s) = (s \<noteq> [])"
| "truthy (JArr xs) = (xs \<noteq> [])"
| "truthy (JObj kvs) = (kvs \<noteq> [])"

text \<open>
  A \<^verbatim>\<open>pathlib\<close> path on POSIX: whether it is absolute, and its components. Parsing a
  string splits it at \<^verbatim>\<open>/\<close> and drops empty and \<^verbatim>\<open>.\<close> components; \<^verbatim>\<open>..\<close> is kept.
  Joining a segment that is itself absolute discards what came before, as \<^verbatim>\<open>pathlib\<close>
  does. (POSIX's separate root \<^verbatim>\<open>//\<close> is not told apart from \<^verbatim>\<open>/\<close>.)
\<close>

datatype path = Path (is_absolute: bool) (parts: "string list")

fun split_slash :: "string \<Rightarrow> string list" where
  "split_slash [] = [[]]"
| "split_slash (c # cs) =
     (if c = CHR ''/'' then [] # split_slash cs
      else (case split_slash cs of [] \<Rightarrow> [[c]] | p # ps \<Rightarrow> (c # p) # ps))"

definition components :: "string \<Rightarrow> string list" where
  "components s = filter (\<lambda>p. p \<noteq> [] \<and> p \<noteq> ''.'') (split_slash s)"

definition starts_with_slash :: "string \<Rightarrow> bool" where
  "starts_with_slash s = (case s of [] \<Rightarrow> False | c # cs \<Rightarrow> c = CHR ''/'')"

definition parse_path :: "string \<Rightarrow> path" where
  "parse_path s = Path (starts_with_slash s) (components s)"

definition joinpath :: "path \<Rightarrow> string \<Rightarrow> path" where
  "joinpath p s =
     (if starts_with_slash s then parse_path s
      else Path (is_absolute p) (parts p @ components s))"

text \<open>\<^verbatim>\<open>Path(a, b, ...)\<close>: the segments joined from left to right.\<close>

definition path_of :: "string list \<Rightarrow> path" where
  "path_of segs = foldl joinpath (Path False []) segs"

text \<open>A relative path names a file below the current working directory.\<close>

definition resolve :: "path \<Rightarrow> path \<Rightarrow> path" where
  "resolve wd p = (if is_absolute p then p else Path (is_absolute wd) (parts wd @ parts p))"

text \<open>The directory itself and every directory above it, outermost first.\<close>

definition ancestors :: "path \<Rightarrow> path list" where
  "ancestors p = map (\<lambda>n. Path (is_absolute p) (take n (parts p))) [1..<Suc (length (parts p))]"

text \<open>
  The format \<^verbatim>\<open>{index:02d}\<close>: the decimal digits, padded with zeros on the left to
  a width of two.
\<close>

definition digit :: "nat \<Rightarrow> char" where
  "digit d = ''0123456789'' ! (d mod 10)"

function decimal :: "nat \<Rightarrow> string" where
  "decimal n = (if n < 10 then [digit n] else decimal (n div 10) @ [digit (n mod 10)])"
  by pat_completeness auto
termination
  by (relation "measure id") auto

declare decimal.simps [simp del]

definition format_02d :: "nat \<Rightarrow> string" where
  "format_02d n = replicate (2 - length (decimal n)) (CHR ''0'') @ decimal n"

section \<open>The world the program acts on\<close>

text \<open>
  File contents are text (mode \<^verbatim>\<open>w\<close>) or bytes (mode \<^verbatim>\<open>wb\<close>); a byte is a \<open>char\<close>.
\<close>

datatype content = Text string | Binary string

datatype request = Get (url: string) (params: "string option")

record response =
  status_code :: nat
  body :: string

text \<open>
  The state that the run reads and changes. \<open>writes\<close> lists the files really written,
  \<open>write_calls\<close> every call of \<^verbatim>\<open>write_if_new\<close> with the resolved target, \<open>requests\<close>
  every HTTP request sent, \<open>downloads\<close> every batch handed to the downloader, \<open>log\<close> the
  records that reached the logger; all in order of occurrence.
\<close>

record world =
  cwd :: path
  dirs :: "path set"
  files :: "path \<rightharpoonup> content"
  writes :: "path list"
  write_calls :: "(path \<times> content) list"
  requests :: "request list"
  downloads :: "string list list"
  log :: "string list"

text \<open>
  What the program only uses and does not define in \<^verbatim>\<open>main.py\<close> is a parameter: the
  constants of \<^verbatim>\<open>constants.py\<close>, the HTTP transport (the same request has the same
  outcome throughout a run), the JSON parser and printer, Python's \<^verbatim>\<open>str()\<close> of a value
  that is not a string, \<^verbatim>\<open>get_extension\<close> of \<^verbatim>\<open>utils.py\<close>, and the external downloader,
  which answers a batch with the records it logged and whether it raised.
\<close>

record env =
  POSTS_URI :: string
  MEDIA_URI :: string
  transport :: "request \<Rightarrow> error + response"
  json_loads :: "string \<Rightarrow> json option"
  json_dumps :: "json \<Rightarrow> string"
  py_repr :: "json \<Rightarrow> string"
  get_extension :: "json \<Rightarrow> error + string"
  ydl_download :: "string list \<Rightarrow> string list \<times> bool"

type_synonym 'a io = "world \<Rightarrow> (error + 'a) \<times> world"

definition io_ret :: "'a \<Rightarrow> 'a io" where
  "io_ret x = (\<lambda>w. (Inr x, w))"

definition io_raise :: "error \<Rightarrow> 'a io" where
  "io_raise e = (\<lambda>w. (Inl e, w))"

definition io_lift :: "error + 'a \<Rightarrow> 'a io" where
  "io_lift r = (\<lambda>w. (r, w))"

definition io_exec :: "(world \<Rightarrow> world) \<Rightarrow> unit io" where
  "io_exec f = (\<lambda>w. (Inr (), f w))"

text \<open>An exception ends the computation; the state reached so far stays.\<close>

definition io_bind :: "'a io \<Rightarrow> ('a \<Rightarrow> 'b io) \<Rightarrow> 'b io" where
  "io_bind m f = (\<lambda>w. case m w of (Inl e, w') \<Rightarrow> (Inl e, w') | (Inr x, w') \<Rightarrow> f x w')"

text \<open>A \<^verbatim>\<open>for\<close> loop whose body yields values: the bodies run in order.\<close>

fun io_map :: "('a \<Rightarrow> 'b io) \<Rightarrow> 'a list \<Rightarrow> 'b list io" where
  "io_map f [] = io_ret []"
| "io_map f (x # xs) = io_bind (f x) (\<lambda>y. io_bind (io_map f xs) (\<lambda>ys. io_ret (y # ys)))"

fun io_foreach :: "('a \<Rightarrow> unit io) \<Rightarrow> 'a list \<Rightarrow> unit io" where
  "io_foreach f [] = io_ret ()"
| "io_foreach f (x # xs) = io_bind (f x) (\<lambda>_. io_foreach f xs)"

section \<open>File system and network\<close>

text \<open>
  \<^verbatim>\<open>makedirs(p, exist_ok=True)\<close>: creates the directory and the missing ones above
  it; fails when the path or one above it is a file.
\<close>

definition makedirs :: "path \<Rightarrow> unit io" where
  "makedirs target = (\<lambda>w.
     let p = resolve (cwd w) target in
     if files w p \<noteq> None then (Inl FileExistsError, w)
     else if list_ex (\<lambda>q. files w q \<noteq> None) (ancestors p) then (Inl NotADirectoryError, w)
     else (Inr (), w\<lparr>dirs := dirs w \<union> set (ancestors p)\<rparr>))"

text \<open>\<^verbatim>\<open>chdir(p)\<close>: the directory must exist.\<close>

definition chdir :: "path \<Rightarrow> unit io" where
  "chdir target = (\<lambda>w.
     let p = resolve (cwd w) target in
     if p \<in> dirs w then (Inr (), w\<lparr>cwd := p\<rparr>)
     else if files w p \<noteq> None then (Inl NotADirectoryError, w)
     else (Inl FileNotFoundError, w))"

text \<open>
  Modelled from the spec: \<^verbatim>\<open>write_if_new\<close> of \<^verbatim>\<open>utils.py\<close>, which is not among the
  sources. The spec (section 3, PersistedFile): if a file at the target path already
  exists with identical content, no write occurs; if it exists with different content
  the existing content is preserved; otherwise the content is written.
\<close>

definition write_if_new :: "path \<Rightarrow> content \<Rightarrow> world \<Rightarrow> world" where
  "write_if_new target c w =
     (let p = resolve (cwd w) target;
          w1 = w\<lparr>write_calls := write_calls w @ [(p, c)]\<rparr>
      in if files w p \<noteq> None then w1
         else w1\<lparr>files := (files w)(p \<mapsto> c), writes := writes w @ [p]\<rparr>)"

text \<open>
  What one call of \<^verbatim>\<open>write_if_new\<close> with a resolved target does to the files: a path
  that is taken keeps its content.
\<close>

definition keep_first :: "(path \<rightharpoonup> content) \<Rightarrow> path \<times> content \<Rightarrow> (path \<rightharpoonup> content)" where
  "keep_first f pc = (if f (fst pc) \<noteq> None then f else f(fst pc \<mapsto> snd pc))"

text \<open>\<^verbatim>\<open>logger.debug(msg)\<close>.\<close>

definition logger_debug :: "string \<Rightarrow> unit io" where
  "logger_debug msg = io_exec (\<lambda>w. w\<lparr>log := log w @ [msg]\<rparr>)"

text \<open>
  \<^verbatim>\<open>session.get(url, params=...)\<close>: the request is sent and the transport answers with
  a response or raises.
\<close>

definition session_get :: "env \<Rightarrow> string \<Rightarrow> string option \<Rightarrow> response io" where
  "session_get env u ps = (\<lambda>w.
     (transport env (Get u ps), w\<lparr>requests := requests w @ [Get u ps]\<rparr>))"

text \<open>
  The same for a URL read from a JSON document: a value that is not a string names no
  URL, and \<^verbatim>\<open>requests\<close> raises before anything is sent.
\<close>

definition session_get_json :: "env \<Rightarrow> json \<Rightarrow> response io" where
  "session_get_json env v =
     (case v of JStr u \<Rightarrow> session_get env u None | _ \<Rightarrow> io_raise RequestException)"

text \<open>\<^verbatim>\<open>r.raise_for_status()\<close> raises for a status from 400 to 599.\<close>

definition raise_for_status :: "response \<Rightarrow> error + unit" where
  "raise_for_status r =
     (if 400 \<le> status_code r \<and> status_code r < 600 then Inl (HTTPError (status_code r))
      else Inr ())"

text \<open>
  \<^verbatim>\<open>RateLimiter(max_calls=1, period=p)\<close> of the \<^verbatim>\<open>ratelimiter\<close> package: the
  constructor raises \<^verbatim>\<open>ValueError\<close> for a period that is not positive. Entering the
  limiter only delays, and time is not part of the model.
\<close>

definition RateLimiter :: "int \<Rightarrow> error + unit" where
  "RateLimiter period = (if period \<le> 0 then Inl ValueError else Inr ())"

text \<open>\<^verbatim>\<open>r.json()\<close> parses the body whatever the status is.\<close>

definition r_json :: "env \<Rightarrow> response \<Rightarrow> error + json" where
  "r_json env r = (case json_loads env (body r) of None \<Rightarrow> Inl JSONDecodeError | Some j \<Rightarrow> Inr j)"

text \<open>A value inside an f-string: a string stands for itself.\<close>

definition py_str :: "env \<Rightarrow> json \<Rightarrow> string" where
  "py_str env v = (case v of JStr s \<Rightarrow> s | _ \<Rightarrow> py_repr env v)"

text \<open>\<^verbatim>\<open>Path(..., v)\<close> and \<^verbatim>\<open>'...' + v\<close> want a string.\<close>

definition as_str :: "json \<Rightarrow> error + string" where
  "as_str v = (case v of JStr s \<Rightarrow> Inr s | _ \<Rightarrow> Inl TypeError)"

text \<open>\<^verbatim>\<open>v.title()\<close> exists on strings only; its result is printed and not kept.\<close>

definition has_title :: "json \<Rightarrow> error + unit" where
  "has_title v = (case v of JStr s \<Rightarrow> Inr () | _ \<Rightarrow> Inl AttributeError)"

text \<open>\<^verbatim>\<open>pdd['attributes'][k]\<close>.\<close>

definition attribute :: "json \<Rightarrow> string \<Rightarrow> error + json" where
  "attribute pdd k = thenE (subscript pdd ''attributes'') (\<lambda>a. subscript a k)"

section \<open>Persisting posts\<close>

text \<open>
  \<^verbatim>\<open>SaveInfo\<close> is a \<^verbatim>\<open>TypedDict\<close>, at run time a \<^verbatim>\<open>dict\<close> with the keys
  \<^verbatim>\<open>post_data_dict\<close> and \<^verbatim>\<open>target_dir\<close>, in this order.
\<close>

datatype info_value = PostData json | TargetDir path

type_synonym save_info = "(string \<times> info_value) list"

definition SaveInfo :: "json \<Rightarrow> path \<Rightarrow> save_info" where
  "SaveInfo pdd d = [(''post_data_dict'', PostData pdd), (''target_dir'', TargetDir d)]"

text \<open>
  The body of the loop of \<^verbatim>\<open>save_images\<close> (lines 37 to 46) for one image: the record
  of the sub-resource is fetched and read, the image behind its \<^verbatim>\<open>original\<close> URL is
  fetched, and the body of that response is written. Neither response has its status
  checked. Entering the rate limiter only delays.
\<close>

definition save_image :: "env \<Rightarrow> path \<Rightarrow> nat \<times> json \<Rightarrow> unit io" where
  "save_image env target_dir = (\<lambda>(index, iid).
     io_bind (session_get env (MEDIA_URI env @ ''/'' @ py_str env iid) None) (\<lambda>r.
     io_bind (io_lift (thenE (r_json env r) (\<lambda>j. subscript j ''data''))) (\<lambda>data.
     io_bind (io_lift (thenE (attribute data ''image_urls'') (\<lambda>u. subscript u ''original''))) (\<lambda>original.
     io_bind (session_get_json env original) (\<lambda>r2.
     io_bind (io_lift (subscript data ''id'')) (\<lambda>sid.
     io_bind (io_lift (thenE (attribute data ''mimetype'') (get_extension env))) (\<lambda>ext.
     io_exec (write_if_new
       (joinpath target_dir (format_02d index @ ''-'' @ py_str env sid @ ''.'' @ ext))
       (Binary (body r2))))))))))"

definition save_images :: "env \<Rightarrow> json \<Rightarrow> int \<Rightarrow> save_info io" where
  "save_images env pdd sleep_time =
     io_bind (io_lift (attribute pdd ''url'')) (\<lambda>_.
     io_bind (io_lift (thenE (subscript pdd ''id'') as_str)) (\<lambda>pid.
     let target_dir = path_of [''.'', ''images'', pid] in
     io_bind (makedirs target_dir) (\<lambda>_.
     io_bind (io_exec (write_if_new (joinpath target_dir ''post.json'')
                (Text (json_dumps env pdd @ [CHR 0x0A])))) (\<lambda>_.
     io_bind (io_lift (RateLimiter sleep_time)) (\<lambda>_.
     io_bind (io_lift (thenE (attribute pdd ''post_metadata'')
                (\<lambda>m. thenE (subscript m ''image_order'') py_iter))) (\<lambda>ids.
     io_bind (io_foreach (save_image env target_dir) (enumerate 1 ids)) (\<lambda>_.
     io_ret (SaveInfo pdd target_dir))))))))"

definition save_other :: "env \<Rightarrow> json \<Rightarrow> save_info io" where
  "save_other env pdd =
     io_bind (io_lift (thenE (attribute pdd ''post_type'') has_title)) (\<lambda>_.
     io_bind (io_lift (thenE (attribute pdd ''url'') as_str)) (\<lambda>_.
     let other = path_of [''.'', ''other''] in
     io_bind (makedirs other) (\<lambda>_.
     io_bind (io_lift (attribute pdd ''post_type'')) (\<lambda>post_type.
     io_bind (io_lift (subscript pdd ''id'')) (\<lambda>pid.
     io_bind (io_exec (write_if_new
                (joinpath other (py_str env post_type @ ''-'' @ py_str env pid @ ''.json''))
                (Text (json_dumps env pdd @ [CHR 0x0A])))) (\<lambda>_.
     io_ret (SaveInfo pdd other)))))))"

section \<open>Classifying the posts of a page\<close>

text \<open>
  What \<^verbatim>\<open>process_posts\<close> yields: a value read from the post, or a \<^verbatim>\<open>SaveInfo\<close>.
  \<^verbatim>\<open>yield from d\<close> on a dict \<open>d\<close> yields the keys of \<open>d\<close>, which are strings.
\<close>

datatype item = Value json | Info save_info

definition yield_from :: "save_info \<Rightarrow> item list" where
  "yield_from d = map (\<lambda>kv. Value (JStr (fst kv))) d"

definition process_post :: "env \<Rightarrow> int \<Rightarrow> json \<Rightarrow> item list io" where
  "process_post env sleep_time post =
     io_bind (io_lift (attribute post ''post_type'')) (\<lambda>post_type.
     if post_type \<in> {JStr ''audio_file'', JStr ''audio_embed'', JStr ''video_embed''}
     then io_bind (io_lift (attribute post ''url'')) (\<lambda>u. io_ret [Value u])
     else if post_type = JStr ''image_file''
     then io_bind (save_images env post sleep_time) (\<lambda>d. io_ret (yield_from d))
     else io_bind (save_other env post) (\<lambda>d. io_ret [Info d]))"

definition process_posts :: "env \<Rightarrow> json \<Rightarrow> int \<Rightarrow> item list io" where
  "process_posts env posts sleep_time =
     io_bind (io_lift (thenE (subscript posts ''data'') py_iter)) (\<lambda>ps.
     io_bind (io_map (process_post env sleep_time) ps) (\<lambda>yss.
     io_ret (concat yss)))"

text \<open>\<^verbatim>\<open>x for x in ... if isinstance(x, str)\<close>.\<close>

fun strings_of :: "item list \<Rightarrow> string list" where
  "strings_of [] = []"
| "strings_of (Value (JStr s) # xs) = s # strings_of xs"
| "strings_of (x # xs) = strings_of xs"

section \<open>Deduplication and batching\<close>

text \<open>
  Modelled from the spec: \<^verbatim>\<open>unique_iter\<close> of \<^verbatim>\<open>utils.py\<close>, which is not among the
  sources. The spec (sections 2 and 4.2): it produces the previously-unseen items of an
  ordered input sequence, each distinct value once, in order of first occurrence. The
  items seen so far are carried along.
\<close>

fun unique_from :: "'a set \<Rightarrow> 'a list \<Rightarrow> 'a list" where
  "unique_from seen [] = []"
| "unique_from seen (x # xs) =
     (if x \<in> seen then unique_from seen xs else x # unique_from (insert x seen) xs)"

definition unique_iter :: "'a list \<Rightarrow> 'a list" where
  "unique_iter xs = unique_from {} xs"

text \<open>
  Modelled from the spec: \<^verbatim>\<open>chunks\<close> of \<^verbatim>\<open>utils.py\<close>, which is not among the sources.
  The spec (section 4.5): the sequence is partitioned into contiguous batches of at most
  \<open>n\<close> items, preserving order. The spec says nothing for a batch size below one; the
  model has no batch there.
\<close>

function chunks :: "'a list \<Rightarrow> nat \<Rightarrow> 'a list list" where
  "chunks xs n = (if n = 0 \<or> xs = [] then [] else take n xs # chunks (drop n xs) n)"
  by pat_completeness auto
termination
  by (relation "measure (\<lambda>(xs, n). length xs)") auto

declare chunks.simps [simp del]

section \<open>The run\<close>

text \<open>
  Lines 106 to 109: without \<^verbatim>\<open>-o\<close> the output directory is \<^verbatim>\<open>Path('.', campaign_id)\<close>
  and is created; in either case the program changes into the output directory.
\<close>

definition output_directory :: "string option \<Rightarrow> string \<Rightarrow> unit io" where
  "output_directory output_dir campaign_id =
     (case output_dir of
        None \<Rightarrow>
          (let d = path_of [''.'', campaign_id]
           in io_bind (makedirs d) (\<lambda>_. chdir d))
      | Some s \<Rightarrow> chdir (parse_path s))"

text \<open>
  Lines 117 to 120 and 129 to 131: a page is fetched, its status checked and its body
  parsed.
\<close>

definition fetch_page :: "env \<Rightarrow> response io \<Rightarrow> json io" where
  "fetch_page env get =
     io_bind get (\<lambda>r.
     io_bind (io_lift (raise_for_status r)) (\<lambda>_.
     io_lift (r_json env r)))"

text \<open>
  Lines 121 to 125: the posts of the first page. Its continuation is read with no
  handler around the lookup. The result is the media buffer and \<^verbatim>\<open>next_uri\<close>.
\<close>

definition first_page_posts :: "env \<Rightarrow> int \<Rightarrow> json \<Rightarrow> (string list \<times> json) io" where
  "first_page_posts env sleep_time posts =
     io_bind (process_posts env posts sleep_time) (\<lambda>items.
     io_bind (io_lift (thenE (subscript posts ''links'') (\<lambda>l. subscript l ''next''))) (\<lambda>next_uri.
     io_bind (logger_debug (''Next URI: '' @ py_str env next_uri)) (\<lambda>_.
     io_ret (strings_of items, next_uri))))"

definition first_page :: "env \<Rightarrow> string \<Rightarrow> int \<Rightarrow> (string list \<times> json) io" where
  "first_page env campaign_id sleep_time =
     io_bind (fetch_page env (session_get env (POSTS_URI env) (Some campaign_id)))
       (first_page_posts env sleep_time)"

text \<open>
  Lines 132 to 140: the posts of a later page. A \<^verbatim>\<open>KeyError\<close> of the lookup of the
  continuation is caught and \<^verbatim>\<open>next_uri\<close> becomes \<^verbatim>\<open>None\<close>; any other exception
  propagates.
\<close>

definition next_page_posts ::
  "env \<Rightarrow> int \<Rightarrow> string list \<Rightarrow> json \<Rightarrow> (string list \<times> json) io"
where
  "next_page_posts env sleep_time media_uris posts =
     io_bind (process_posts env posts sleep_time) (\<lambda>items.
     (case thenE (subscript posts ''links'') (\<lambda>l. subscript l ''next'') of
        Inl (KeyError k) \<Rightarrow> io_ret (media_uris @ strings_of items, JNull)
      | Inl e \<Rightarrow> io_raise e
      | Inr v \<Rightarrow>
          io_bind (logger_debug (''Next URI: '' @ py_str env v)) (\<lambda>_.
          io_ret (media_uris @ strings_of items, v))))"

text \<open>Lines 128 to 140: one turn of the \<^verbatim>\<open>while\<close> loop.\<close>

definition next_page :: "env \<Rightarrow> int \<Rightarrow> json \<Rightarrow> string list \<Rightarrow> (string list \<times> json) io" where
  "next_page env sleep_time next_uri media_uris =
     io_bind (fetch_page env (session_get_json env next_uri))
       (next_page_posts env sleep_time media_uris)"

text \<open>
  Line 127: \<^verbatim>\<open>while next_uri:\<close>. The server decides how many pages there are, so the
  loop has fuel: \<open>None\<close> is a loop still running when the fuel is used up.
\<close>

fun page_loop ::
  "nat \<Rightarrow> env \<Rightarrow> int \<Rightarrow> json \<Rightarrow> string list \<Rightarrow> world \<Rightarrow> ((error + string list) \<times> world) option"
where
  "page_loop fuel env sleep_time next_uri media_uris w =
     (if \<not> truthy next_uri then Some (Inr media_uris, w)
      else (case fuel of
              0 \<Rightarrow> None
            | Suc fuel' \<Rightarrow>
                (case next_page env sleep_time next_uri media_uris w of
                   (Inl e, w') \<Rightarrow> Some (Inl e, w')
                 | (Inr (media_uris', next_uri'), w') \<Rightarrow>
                     page_loop fuel' env sleep_time next_uri' media_uris' w')))"

declare page_loop.simps [simp del]

text \<open>
  Lines 150 to 156: one call of the downloader for each batch. When the call raises,
  the run is aborted if \<^verbatim>\<open>fail\<close> is set; otherwise the handler does nothing and the
  loop goes on.
\<close>

fun dispatch :: "env \<Rightarrow> bool \<Rightarrow> string list list \<Rightarrow> world \<Rightarrow> (error + unit) \<times> world" where
  "dispatch env fail [] w = (Inr (), w)"
| "dispatch env fail (chunk # rest) w =
     (let w' = w\<lparr>downloads := downloads w @ [chunk],
                 log := log w @ fst (ydl_download env chunk)\<rparr>
      in if snd (ydl_download env chunk) \<and> fail then (Inl Abort, w')
         else dispatch env fail rest w')"

text \<open>
  \<^verbatim>\<open>main\<close>, from line 106 on. Reading the cookies, the headers and the options of the
  downloader have no part in what follows and are left out. The rate limiter of the
  loop is made at line 126, after the first page and whether or not there is a second.
  The batch size is a natural number: the spec has batches for a size of at least one
  only.
\<close>

definition main ::
  "env \<Rightarrow> string option \<Rightarrow> string \<Rightarrow> bool \<Rightarrow> nat \<Rightarrow> int \<Rightarrow> nat \<Rightarrow> world
     \<Rightarrow> ((error + unit) \<times> world) option"
where
  "main env output_dir campaign_id fail yt_dlp_arg_limit sleep_time fuel w =
     (case output_directory output_dir campaign_id w of
        (Inl e, w1) \<Rightarrow> Some (Inl e, w1)
      | (Inr _, w1) \<Rightarrow>
     (case first_page env campaign_id sleep_time w1 of
        (Inl e, w2) \<Rightarrow> Some (Inl e, w2)
      | (Inr (media_uris, next_uri), w2) \<Rightarrow>
     (case RateLimiter sleep_time of
        Inl e \<Rightarrow> Some (Inl e, w2)
      | Inr _ \<Rightarrow>
     (case page_loop fuel env sleep_time next_uri media_uris w2 of
        None \<Rightarrow> None
      | Some (Inl e, w3) \<Rightarrow> Some (Inl e, w3)
      | Some (Inr media_uris', w3) \<Rightarrow>
          Some (dispatch env fail (chunks (unique_iter media_uris') yt_dlp_arg_limit) w3)))))"

section \<open>The layout of an image set, in the words of the spec\<close>

text \<open>
  The spec's section 4.3 names the file of an image
  \<^verbatim>\<open>images/<post.id>/<NN>-<subresource.id>.<ext>\<close>, with \<open>NN\<close> the 1-based index
  zero-padded to two digits. These definitions follow that sentence, to be compared with
  what \<^verbatim>\<open>save_images\<close> does.
\<close>

definition zero_padded :: "nat \<Rightarrow> string" where
  "zero_padded n = (if n < 10 then CHR ''0'' # decimal n else decimal n)"

definition image_file_name :: "string \<Rightarrow> nat \<Rightarrow> string \<Rightarrow> string \<Rightarrow> string" where
  "image_file_name post_id n sub_id ext =
     ''images/'' @ post_id @ ''/'' @ zero_padded n @ ''-'' @ sub_id @ ''.'' @ ext"

text \<open>
  The sub-resource of an image identifier (the spec's ImageSubResource): its own
  identifier, the extension derived from its mime type, its \<^verbatim>\<open>original\<close> URL and the
  binary content found there.
\<close>

record sub_resource =
  sub_id :: string
  extension :: string
  original :: string
  payload :: string

definition sub_resource_of :: "env \<Rightarrow> json \<Rightarrow> error + sub_resource" where
  "sub_resource_of env iid =
     thenE (transport env (Get (MEDIA_URI env @ ''/'' @ py_str env iid) None)) (\<lambda>r.
     thenE (thenE (r_json env r) (\<lambda>j. subscript j ''data'')) (\<lambda>data.
     thenE (thenE (attribute data ''image_urls'') (\<lambda>u. thenE (subscript u ''original'') as_str)) (\<lambda>u.
     thenE (transport env (Get u None)) (\<lambda>r2.
     thenE (subscript data ''id'') (\<lambda>sid.
     thenE (thenE (attribute data ''mimetype'') (get_extension env)) (\<lambda>ext.
     Inr \<lparr>sub_id = py_str env sid, extension = ext, original = u, payload = body r2\<rparr>))))))"

section \<open>A sample run\<close>

text \<open>
  The scenario of the spec's section 8, used to run the definitions: the first page has
  a video post, an image post with the images \<open>a\<close> and \<open>b\<close>, and a post of another
  type; it links to a second page with one audio post and no continuation. The server
  answers the request for the image \<open>b\<close> with status 404.
\<close>

definition post_video :: json where
  "post_video = JObj [(''id'', JStr ''p0''),
     (''attributes'', JObj [(''post_type'', JStr ''video_embed''), (''url'', JStr ''u1'')])]"

definition post_images :: json where
  "post_images = JObj [(''id'', JStr ''p1''),
     (''attributes'', JObj [(''post_type'', JStr ''image_file''), (''url'', JStr ''u2''),
        (''post_metadata'', JObj [(''image_order'', JArr [JStr ''a'', JStr ''b''])])])]"

definition post_text :: json where
  "post_text = JObj [(''id'', JStr ''p2''),
     (''attributes'', JObj [(''post_type'', JStr ''text_only''), (''url'', JStr ''u3'')])]"

definition post_audio :: json where
  "post_audio = JObj [(''id'', JStr ''p3''),
     (''attributes'', JObj [(''post_type'', JStr ''audio_embed''), (''url'', JStr ''u1'')])]"

definition page1 :: json where
  "page1 = JObj [(''data'', JArr [post_video, post_images, post_text]),
                 (''links'', JObj [(''next'', JStr ''page2'')])]"

definition page2 :: json where
  "page2 = JObj [(''data'', JArr [post_audio]), (''links'', JObj [])]"

definition image_record :: "string \<Rightarrow> json" where
  "image_record i = JObj [(''data'', JObj [(''id'', JStr i),
     (''attributes'', JObj [(''mimetype'', JStr ''image/png''),
        (''image_urls'', JObj [(''original'', JStr (''img/'' @ i))])])])]"

definition answer :: "nat \<Rightarrow> string \<Rightarrow> error + response" where
  "answer s b = Inr \<lparr>status_code = s, body = b\<rparr>"

definition demo_env :: env where
  "demo_env = \<lparr>
     POSTS_URI = ''posts'',
     MEDIA_URI = ''media'',
     transport = (\<lambda>rq.
        if rq = Get ''posts'' (Some ''c1'') then answer 200 ''PAGE1''
        else if rq = Get ''page2'' None then answer 200 ''PAGE2''
        else if rq = Get ''media/a'' None then answer 200 ''REC-A''
        else if rq = Get ''media/b'' None then answer 200 ''REC-B''
        else if rq = Get ''img/a'' None then answer 200 ''bytes of a''
        else if rq = Get ''img/b'' None then answer 404 ''Not Found''
        else Inl RequestException),
     json_loads = (\<lambda>s.
        if s = ''PAGE1'' then Some page1
        else if s = ''PAGE2'' then Some page2
        else if s = ''REC-A'' then Some (image_record ''a'')
        else if s = ''REC-B'' then Some (image_record ''b'')
        else None),
     json_dumps = (\<lambda>j. ''{}''),
     py_repr = (\<lambda>j. ''None''),
     get_extension = (\<lambda>m. if m = JStr ''image/png'' then Inr ''png'' else Inr ''bin''),
     ydl_download = (\<lambda>batch. if batch = [''u2''] then ([], True) else ([''done''], False))\<rparr>"

definition world0 :: world where
  "world0 = \<lparr>cwd = Path True [''home''], dirs = {Path True [], Path True [''home'']},
     files = Map.empty, writes = [], write_calls = [], requests = [], downloads = [], log = []\<rparr>"

text \<open>A server with the one page \<open>p\<close>, and the world after the default setup.\<close>

definition page_env :: "json \<Rightarrow> env" where
  "page_env p = demo_env\<lparr>
     transport := (\<lambda>rq. if rq = Get ''posts'' (Some ''c1'') then answer 200 ''PAGE''
                         else Inl RequestException),
     json_loads := (\<lambda>s. if s = ''PAGE'' then Some p else None)\<rparr>"

definition world1 :: world where
  "world1 = world0\<lparr>cwd := Path True [''home'', ''c1''],
     dirs := {Path True [], Path True [''home''], Path True [''home'', ''c1'']}\<rparr>"

text \<open>Pages with one post: without a continuation, and with an empty one.\<close>

definition page_without_next :: json where
  "page_without_next = JObj [(''data'', JArr [post_audio]), (''links'', JObj [])]"

definition page_empty_next :: json where
  "page_empty_next =
     JObj [(''data'', JArr [post_audio]), (''links'', JObj [(''next'', JStr [])])]"

text \<open>An image post without images, on a last page.\<close>

definition post_no_images :: json where
  "post_no_images = JObj [(''id'', JStr ''p4''),
     (''attributes'', JObj [(''post_type'', JStr ''image_file''), (''url'', JStr ''u4''),
        (''post_metadata'', JObj [(''image_order'', JArr [])])])]"

definition page_image_post :: json where
  "page_image_post =
     JObj [(''data'', JArr [post_no_images]), (''links'', JObj [(''next'', JNull)])]"

text \<open>An image post with the one image \<open>b\<close>, the one the server has no content for.\<close>

definition post_one_image :: json where
  "post_one_image = JObj [(''id'', JStr ''p5''),
     (''attributes'', JObj [(''post_type'', JStr ''image_file''), (''url'', JStr ''u5''),
        (''post_metadata'', JObj [(''image_order'', JArr [JStr ''b''])])])]"

text \<open>
  A server with two pages: a first page with the video post that links to \<open>page2\<close>,
  the page of the sample run that has no continuation field.
\<close>

definition page_with_next :: json where
  "page_with_next = JObj [(''data'', JArr [post_video]),
                          (''links'', JObj [(''next'', JStr ''page2'')])]"

definition two_page_env :: env where
  "two_page_env = demo_env\<lparr>
     transport := (\<lambda>rq. if rq = Get ''posts'' (Some ''c1'') then answer 200 ''FIRST''
                         else if rq = Get ''page2'' None then answer 200 ''PAGE2''
                         else Inl RequestException),
     json_loads := (\<lambda>s. if s = ''FIRST'' then Some page_with_next
                         else if s = ''PAGE2'' then Some page2
                         else None)\<rparr>"

section \<open>The deduplicator\<close>

lemma unique_from_set: "set (unique_from seen xs) = set xs - seen"
  by (induction xs arbitrary: seen) auto

lemma unique_from_distinct: "distinct (unique_from seen xs)"
  by (induction xs arbitrary: seen) (auto simp: unique_from_set)

lemma unique_from_index:
  "unique_from seen xs =
     map (\<lambda>i. xs ! i) (filter (\<lambda>i. xs ! i \<notin> seen \<union> set (take i xs)) [0..<length xs])"
proof (induction xs arbitrary: seen)
  case Nil
  show ?case by simp
next
  case (Cons x xs)
  have shift: "[0..<length (x # xs)] = 0 # map Suc [0..<length xs]"
    by (simp add: upt_conv_Cons map_Suc_upt del: upt_Suc)
  show ?case
  proof (cases "x \<in> seen")
    case True
    then have same:
      "(\<lambda>i. xs ! i \<notin> seen \<and> xs ! i \<noteq> x \<and> xs ! i \<notin> set (take i xs)) =
       (\<lambda>i. xs ! i \<notin> seen \<and> xs ! i \<notin> set (take i xs))"
      by auto
    show ?thesis
      unfolding shift using True
      by (simp add: Cons.IH [of seen] filter_map comp_def same del: upt_Suc)
  next
    case False
    have same:
      "(\<lambda>i. xs ! i \<noteq> x \<and> xs ! i \<notin> seen \<and> xs ! i \<notin> set (take i xs)) =
       (\<lambda>i. xs ! i \<notin> seen \<and> xs ! i \<noteq> x \<and> xs ! i \<notin> set (take i xs))"
      by auto
    show ?thesis
      unfolding shift using False
      by (simp add: Cons.IH [of "insert x seen"] filter_map comp_def same del: upt_Suc)
  qed
qed

lemma unique_from_fixed:
  "distinct xs \<Longrightarrow> set xs \<inter> seen = {} \<Longrightarrow> unique_from seen xs = xs"
  by (induction xs arbitrary: seen) auto

text \<open>
  Claim C7. For every input sequence, the output of the deduplicator holds each distinct
  value of the input exactly once (it has no repetition and the same elements), in order
  of first occurrence (it is the input restricted to the positions whose value occurs at
  no earlier position), and the deduplicator leaves its own output unchanged.
\<close>

theorem unique_iter_first_occurrences:
  "distinct (unique_iter xs) \<and> set (unique_iter xs) = set xs
   \<and> unique_iter xs =
       map (\<lambda>i. xs ! i) (filter (\<lambda>i. xs ! i \<notin> set (take i xs)) [0..<length xs])
   \<and> unique_iter (unique_iter xs) = unique_iter xs"
proof -
  have d: "distinct (unique_iter xs)"
    by (simp add: unique_iter_def unique_from_distinct)
  have s: "set (unique_iter xs) = set xs"
    by (simp add: unique_iter_def unique_from_set)
  have i: "unique_iter xs =
       map (\<lambda>i. xs ! i) (filter (\<lambda>i. xs ! i \<notin> set (take i xs)) [0..<length xs])"
    using unique_from_index [of "{}" xs] by (simp add: unique_iter_def)
  have f: "unique_iter (unique_iter xs) = unique_iter xs"
    using d unique_from_fixed [of "unique_iter xs" "{}"] by (simp add: unique_iter_def)
  from d s i f show ?thesis by blast
qed

section \<open>Idempotent persistence\<close>

lemma resolve_simps [simp]:
  "resolve wd (Path True ps) = Path True ps"
  "resolve wd (Path False ps) = Path (is_absolute wd) (parts wd @ ps)"
  by (simp_all add: resolve_def)

text \<open>
  Claim C5. A second write to the same path is always skipped: it performs no
  file system write and leaves every file as the first write left it, whether its
  content is the same or not. When no file is at the path before, the first write is
  the one write performed and its content is what is on disk afterwards.
\<close>

theorem write_if_new_first_write_wins:
  "writes (write_if_new p b (write_if_new p a w)) = writes (write_if_new p a w)
   \<and> files (write_if_new p b (write_if_new p a w)) = files (write_if_new p a w)
   \<and> (files w (resolve (cwd w) p) = None \<longrightarrow>
        writes (write_if_new p a w) = writes w @ [resolve (cwd w) p]
        \<and> files (write_if_new p a w) = (files w)(resolve (cwd w) p \<mapsto> a))"
  by (simp add: write_if_new_def Let_def)

theorem write_if_new_first_write_wins_witness:
  "files world0 (resolve (cwd world0) (Path False [''other'', ''x.json''])) = None
   \<and> writes (write_if_new (Path False [''other'', ''x.json'']) (Text ''B'')
        (write_if_new (Path False [''other'', ''x.json'']) (Text ''A'') world0))
       = [Path True [''home'', ''other'', ''x.json'']]
   \<and> files (write_if_new (Path False [''other'', ''x.json'']) (Text ''B'')
        (write_if_new (Path False [''other'', ''x.json'']) (Text ''A'') world0))
        (Path True [''home'', ''other'', ''x.json'']) = Some (Text ''A'')"
  using write_if_new_first_write_wins
    [of "Path False [''other'', ''x.json'']" "Text ''B''" "Text ''A''" world0]
  by (simp add: world0_def)

section \<open>Batches and their dispatch\<close>

lemma chunks_Nil [simp]: "chunks [] n = []"
  by (simp add: chunks.simps)

lemma chunks_step: "0 < n \<Longrightarrow> xs \<noteq> [] \<Longrightarrow> chunks xs n = take n xs # chunks (drop n xs) n"
  by (subst chunks.simps) simp

lemma chunks_concat: "0 < n \<Longrightarrow> concat (chunks xs n) = xs"
proof (induction xs n rule: chunks.induct)
  case (1 xs n)
  show ?case
  proof (cases "xs = []")
    case True
    then show ?thesis by simp
  next
    case False
    with 1 show ?thesis by (simp add: chunks_step)
  qed
qed

lemma chunks_sizes: "0 < n \<Longrightarrow> b \<in> set (chunks xs n) \<Longrightarrow> b \<noteq> [] \<and> length b \<le> n"
proof (induction xs n rule: chunks.induct)
  case (1 xs n)
  show ?case
  proof (cases "xs = []")
    case True
    with 1 show ?thesis by simp
  next
    case False
    with 1 show ?thesis by (auto simp: chunks_step)
  qed
qed

lemma chunks_length: "0 < n \<Longrightarrow> length (chunks xs n) = (length xs + n - 1) div n"
proof (induction xs n rule: chunks.induct)
  case (1 xs n)
  show ?case
  proof (cases "xs = []")
    case True
    with 1 show ?thesis by simp
  next
    case False
    have IH: "length (chunks (drop n xs) n) = (length xs - n + n - 1) div n"
      using 1 False by simp
    obtain m where m: "length xs = Suc m"
      using False by (cases xs) auto
    show ?thesis
    proof (cases "n \<le> length xs")
      case True
      then have "length xs + n - 1 = (length xs - n + n - 1) + n"
        using m by simp
      then have "(length xs + n - 1) div n = Suc ((length xs - n + n - 1) div n)"
        using 1(2) by (simp only: div_add_self2)
      with IH False 1(2) show ?thesis by (simp add: chunks_step)
    next
      case False
      have small: "m < n" using False m by simp
      have "(n + m) div n = 1"
        using small by (simp add: div_add_self1)
      moreover have "length xs + n - 1 = n + m" using m by simp
      ultimately have one: "(length xs + n - 1) div n = 1"
        by (simp only:)
      have "length xs - n + n - 1 = n - 1" using False by simp
      then have zero: "(length xs - n + n - 1) div n = 0"
        using 1(2) by simp
      from one zero IH \<open>xs \<noteq> []\<close> 1(2) show ?thesis by (simp add: chunks_step)
    qed
  qed
qed

lemma chunks_nth:
  "0 < n \<Longrightarrow> i < length (chunks xs n) \<Longrightarrow> chunks xs n ! i = take n (drop (i * n) xs)"
proof (induction xs n arbitrary: i rule: chunks.induct)
  case (1 xs n)
  show ?case
  proof (cases "xs = []")
    case True
    with 1 show ?thesis by simp
  next
    case False
    show ?thesis
    proof (cases i)
      case 0
      with False 1(2) show ?thesis by (simp add: chunks_step)
    next
      case (Suc j)
      with False 1 have "chunks (drop n xs) n ! j = take n (drop (j * n) (drop n xs))"
        by (simp add: chunks_step)
      with Suc False 1(2) show ?thesis by (simp add: chunks_step add.commute)
    qed
  qed
qed

text \<open>What the downloader logged on the batches, in order.\<close>

lemma dispatch_continue:
  "dispatch env False cs w =
     (Inr (), w\<lparr>downloads := downloads w @ cs,
                log := log w @ concat (map (\<lambda>c. fst (ydl_download env c)) cs)\<rparr>)"
  by (induction cs arbitrary: w) (simp_all add: Let_def)

lemma dispatch_no_failure:
  "list_all (\<lambda>c. \<not> snd (ydl_download env c)) cs \<Longrightarrow>
   dispatch env fail cs w =
     (Inr (), w\<lparr>downloads := downloads w @ cs,
                log := log w @ concat (map (\<lambda>c. fst (ydl_download env c)) cs)\<rparr>)"
  by (induction cs arbitrary: w) (simp_all add: Let_def)

lemma dispatch_abort:
  "list_all (\<lambda>c. \<not> snd (ydl_download env c)) pre \<Longrightarrow> snd (ydl_download env c) \<Longrightarrow>
   dispatch env True (pre @ c # post) w =
     (Inl Abort, w\<lparr>downloads := downloads w @ pre @ [c],
                   log := log w @ concat (map (\<lambda>c. fst (ydl_download env c)) (pre @ [c]))\<rparr>)"
  by (induction pre arbitrary: w) (simp_all add: Let_def)

text \<open>The number of batches as a ceiling.\<close>

lemma ceiling_div_nat:
  assumes "0 < L"
  shows "\<lceil>real M / real L\<rceil> = int ((M + L - 1) div L)"
proof -
  define k where "k = (M + L - 1) div L"
  have "M + L - 1 < L + k * L"
    unfolding k_def using assms by (rule dividend_less_div_times)
  then have up: "M \<le> k * L" by simp
  have "k * L \<le> M + L - 1"
    unfolding k_def by (rule div_times_less_eq_dividend)
  then have low: "k * L < M + L" using assms by simp
  have "real M \<le> real (k * L)" using up by (simp only: of_nat_le_iff)
  then have a: "real M / real L \<le> of_int (int k)"
    using assms by (simp add: pos_divide_le_eq)
  have "real (k * L) < real (M + L)" using low by (simp only: of_nat_less_iff)
  then have "(real k - 1) * real L < real M"
    by (simp add: algebra_simps)
  then have b: "of_int (int k) - 1 < real M / real L"
    using assms by (simp add: pos_less_divide_eq)
  from b a have "\<lceil>real M / real L\<rceil> = int k" by (rule ceiling_unique)
  then show ?thesis by (simp add: k_def)
qed

text \<open>
  Claim C6. For a deduplicated list \<open>xs\<close> of length \<open>M\<close> and a batch size \<open>L\<close> of at
  least one, in a run that the fail-fast flag does not cut short (the flag is off, or no
  call of the downloader raises), the downloader is called with exactly the batches
  \<open>chunks xs L\<close>, in order. There are \<open>ceil(M/L)\<close> of them, none is longer than \<open>L\<close>, the
  batch at position \<open>i\<close> is the stretch of \<open>L\<close> items of \<open>xs\<close> from position \<open>i * L\<close> on, and
  the batches put together are \<open>xs\<close> again, so nothing is left out or repeated.
\<close>

theorem dispatcher_batches:
  "0 < L \<Longrightarrow> distinct xs \<Longrightarrow>
   \<not> fail \<or> list_all (\<lambda>c. \<not> snd (ydl_download env c)) (chunks xs L) \<Longrightarrow>
   downloads (snd (dispatch env fail (chunks xs L) w)) = downloads w @ chunks xs L
   \<and> int (length (chunks xs L)) = \<lceil>real (length xs) / real L\<rceil>
   \<and> (\<forall>b \<in> set (chunks xs L). length b \<le> L)
   \<and> (\<forall>i < length (chunks xs L). chunks xs L ! i = take L (drop (i * L) xs))
   \<and> concat (chunks xs L) = xs
   \<and> distinct (concat (chunks xs L))"
proof -
  assume L: "0 < L" and d: "distinct xs"
    and ok: "\<not> fail \<or> list_all (\<lambda>c. \<not> snd (ydl_download env c)) (chunks xs L)"
  have "dispatch env fail (chunks xs L) w =
     (Inr (), w\<lparr>downloads := downloads w @ chunks xs L,
                log := log w @ concat (map (\<lambda>c. fst (ydl_download env c)) (chunks xs L))\<rparr>)"
  proof (cases fail)
    case True
    with ok show ?thesis by (simp add: dispatch_no_failure)
  next
    case False
    then show ?thesis by (simp add: dispatch_continue)
  qed
  then have a: "downloads (snd (dispatch env fail (chunks xs L) w)) = downloads w @ chunks xs L"
    by simp
  have b: "int (length (chunks xs L)) = \<lceil>real (length xs) / real L\<rceil>"
    using L by (simp only: chunks_length ceiling_div_nat)
  have c: "\<forall>b \<in> set (chunks xs L). length b \<le> L"
    using L chunks_sizes by blast
  have e: "\<forall>i < length (chunks xs L). chunks xs L ! i = take L (drop (i * L) xs)"
    using L chunks_nth by blast
  have f: "concat (chunks xs L) = xs"
    using L by (rule chunks_concat)
  from a b c e f d show ?thesis by simp
qed

lemma chunks_sample: "chunks [''u1'', ''u2'', ''u3''] 2 = [[''u1'', ''u2''], [''u3'']]"
  by (simp add: chunks_step)

theorem dispatcher_batches_witness:
  "0 < (2::nat) \<and> distinct [''u1'', ''u2'', ''u3'']
   \<and> chunks [''u1'', ''u2'', ''u3''] 2 = [[''u1'', ''u2''], [''u3'']]
   \<and> downloads (snd (dispatch demo_env False (chunks [''u1'', ''u2'', ''u3''] 2) world0))
       = [[''u1'', ''u2''], [''u3'']]
   \<and> int (length (chunks [''u1'', ''u2'', ''u3''] 2)) = \<lceil>real 3 / real 2\<rceil>"
  using dispatcher_batches [of 2 "[''u1'', ''u2'', ''u3'']" False demo_env world0]
  by (simp add: chunks_sample world0_def)

text \<open>
  Claim C4, as the code has it. When the call of the downloader for a batch raises and
  the fail-fast flag is set, the run ends with an abort at that batch: the batches
  before it and the batch itself were handed over, no later one is. When the flag is
  not set, every batch is handed over, in order, whatever the calls do, and the run goes
  on normally. In both cases the log gains what the downloader itself logged on the
  batches handed over and nothing else: the handler writes no record of the failure.
\<close>

theorem dispatch_failure_policy:
  "(fail \<and> list_all (\<lambda>b. \<not> snd (ydl_download env b)) pre \<and> snd (ydl_download env c) \<longrightarrow>
      dispatch env fail (pre @ c # post) w =
        (Inl Abort,
         w\<lparr>downloads := downloads w @ pre @ [c],
           log := log w @ concat (map (\<lambda>b. fst (ydl_download env b)) (pre @ [c]))\<rparr>))
   \<and> (\<not> fail \<longrightarrow>
      dispatch env fail cs w =
        (Inr (),
         w\<lparr>downloads := downloads w @ cs,
           log := log w @ concat (map (\<lambda>b. fst (ydl_download env b)) cs)\<rparr>))"
  by (auto simp: dispatch_abort dispatch_continue)

theorem dispatch_failure_policy_witness:
  "snd (ydl_download demo_env [''u2''])
   \<and> dispatch demo_env True [[''u1''], [''u2''], [''u3'']] world0 =
       (Inl Abort, world0\<lparr>downloads := [[''u1''], [''u2'']], log := [''done'']\<rparr>)
   \<and> dispatch demo_env False [[''u1''], [''u2''], [''u3'']] world0 =
       (Inr (), world0\<lparr>downloads := [[''u1''], [''u2''], [''u3'']], log := [''done'', ''done'']\<rparr>)"
  using dispatch_failure_policy [of True demo_env "[[''u1'']]" "[''u2'']" "[[''u3'']]" world0]
    dispatch_failure_policy [of False demo_env "[]" "[]" "[]" world0 "[[''u1''], [''u2''], [''u3'']]"]
  by (simp add: demo_env_def world0_def)

text \<open>
  The claim as the spec states it has the failure logged when the flag is off. In the
  sample run the downloader raises on the batch \<open>[u2]\<close> without logging anything; the
  run goes on normally and the log is as it was.
\<close>

theorem dispatch_failure_not_logged:
  "snd (ydl_download demo_env [''u2''])
   \<and> fst (dispatch demo_env False [[''u2'']] world0) = Inr ()
   \<and> log (snd (dispatch demo_env False [[''u2'']] world0)) = log world0"
  by (simp add: demo_env_def world0_def)

section \<open>Computations in sequence\<close>

lemma io_bind_simps [simp]:
  "io_bind (io_ret x) f = f x"
  "io_bind (io_raise e) f = io_raise e"
  "io_bind (io_lift (Inr x)) f = f x"
  "io_bind (io_lift (Inl e)) f = io_raise e"
  "io_bind (io_exec g) f w = f () (g w)"
  by (simp_all add: io_bind_def io_ret_def io_raise_def io_lift_def io_exec_def)

lemma io_bind_result:
  "io_bind m f w = (case m w of (Inl e, w') \<Rightarrow> (Inl e, w') | (Inr x, w') \<Rightarrow> f x w')"
  by (simp add: io_bind_def)

section \<open>The output directory\<close>

lemma split_slash_not_Nil [simp]: "split_slash s \<noteq> []"
  by (induction s) (auto split: list.splits)

lemma split_slash_append:
  "split_slash (a @ CHR ''/'' # b) = split_slash a @ split_slash b"
  by (induction a) (auto split: list.splits)

lemma components_append:
  "components (a @ CHR ''/'' # b) = components a @ components b"
  by (simp add: components_def split_slash_append)

lemma components_dot_slash [simp]: "components (CHR ''.'' # CHR ''/'' # s) = components s"
  using components_append [of "''.''" s] by (simp add: components_def)

lemma path_of_dot: "path_of [''.'', s] = joinpath (Path False []) s"
  by (simp add: path_of_def joinpath_def starts_with_slash_def components_def)

lemma default_directory:
  "\<not> starts_with_slash s \<Longrightarrow> path_of [''.'', s] = parse_path (''./'' @ s)"
  by (simp add: path_of_dot joinpath_def parse_path_def starts_with_slash_def)

lemma ancestors_last:
  "parts p \<noteq> [] \<Longrightarrow> p \<in> set (ancestors p)"
proof -
  assume "parts p \<noteq> []"
  then have "length (parts p) \<in> {1..<Suc (length (parts p))}" by (cases "parts p") auto
  then have "Path (is_absolute p) (take (length (parts p)) (parts p)) \<in> set (ancestors p)"
    unfolding ancestors_def set_map set_upt by (rule imageI)
  then show ?thesis by simp
qed

text \<open>
  Claim C9, as the code has it. Without \<^verbatim>\<open>-o\<close>, for a campaign id that is a relative
  path with at least one component and with no file in the way, the output directory is
  \<^verbatim>\<open>./<campaign_id>\<close>; it and the missing directories above it are created, so it
  exists when the program changes into it. With \<^verbatim>\<open>-o\<close> nothing is created: the
  program changes into the given directory when it exists, and the run ends with an
  error, the world unchanged, when it does not.
\<close>

theorem output_directory_policy:
  "(components campaign_id \<noteq> [] \<and> \<not> starts_with_slash campaign_id
      \<and> list_all (\<lambda>q. files w q = None)
           (ancestors (resolve (cwd w) (parse_path (''./'' @ campaign_id)))) \<longrightarrow>
      output_directory None campaign_id w =
        (Inr (), w\<lparr>dirs := dirs w \<union> set (ancestors (resolve (cwd w) (parse_path (''./'' @ campaign_id)))),
                  cwd := resolve (cwd w) (parse_path (''./'' @ campaign_id))\<rparr>)
      \<and> resolve (cwd w) (parse_path (''./'' @ campaign_id))
          \<in> dirs w \<union> set (ancestors (resolve (cwd w) (parse_path (''./'' @ campaign_id)))))
   \<and> output_directory (Some s) campaign_id w =
       (if resolve (cwd w) (parse_path s) \<in> dirs w
        then (Inr (), w\<lparr>cwd := resolve (cwd w) (parse_path s)\<rparr>)
        else if files w (resolve (cwd w) (parse_path s)) \<noteq> None then (Inl NotADirectoryError, w)
        else (Inl FileNotFoundError, w))"
proof -
  let ?d = "resolve (cwd w) (parse_path (''./'' @ campaign_id))"
  have explicit: "output_directory (Some s) campaign_id w =
       (if resolve (cwd w) (parse_path s) \<in> dirs w
        then (Inr (), w\<lparr>cwd := resolve (cwd w) (parse_path s)\<rparr>)
        else if files w (resolve (cwd w) (parse_path s)) \<noteq> None then (Inl NotADirectoryError, w)
        else (Inl FileNotFoundError, w))"
    by (simp add: output_directory_def chdir_def Let_def)
  have default: "output_directory None campaign_id w =
        (Inr (), w\<lparr>dirs := dirs w \<union> set (ancestors ?d), cwd := ?d\<rparr>)
      \<and> ?d \<in> dirs w \<union> set (ancestors ?d)"
    if c: "components campaign_id \<noteq> []" and r: "\<not> starts_with_slash campaign_id"
      and f: "list_all (\<lambda>q. files w q = None) (ancestors ?d)"
  proof -
    have p: "path_of [''.'', campaign_id] = parse_path (''./'' @ campaign_id)"
      using r by (rule default_directory)
    have "parts ?d \<noteq> []"
      using c by (simp add: parse_path_def resolve_def starts_with_slash_def)
    then have mem: "?d \<in> set (ancestors ?d)" by (rule ancestors_last)
    with f have nofile: "files w ?d = None" by (simp add: list_all_iff)
    have noanc: "\<not> list_ex (\<lambda>q. files w q \<noteq> None) (ancestors ?d)"
      using f by (simp add: list_all_iff list_ex_iff)
    have mk: "makedirs (parse_path (''./'' @ campaign_id)) w =
        (Inr (), w\<lparr>dirs := dirs w \<union> set (ancestors ?d)\<rparr>)"
      using nofile noanc by (simp add: makedirs_def Let_def)
    have cd: "chdir (parse_path (''./'' @ campaign_id)) (w\<lparr>dirs := dirs w \<union> set (ancestors ?d)\<rparr>) =
        (Inr (), w\<lparr>dirs := dirs w \<union> set (ancestors ?d), cwd := ?d\<rparr>)"
      using mem by (simp add: chdir_def Let_def)
    show ?thesis
      using mk cd mem by (simp add: output_directory_def p io_bind_result Let_def)
  qed
  from explicit default show ?thesis by blast
qed

theorem output_directory_policy_witness:
  "components ''c1'' \<noteq> [] \<and> \<not> starts_with_slash ''c1''
   \<and> output_directory None ''c1'' world0 =
       (Inr (), world0\<lparr>dirs := {Path True [], Path True [''home''], Path True [''home'', ''c1'']},
                       cwd := Path True [''home'', ''c1'']\<rparr>)
   \<and> output_directory (Some ''/home'') ''c1'' world0 = (Inr (), world0)"
  using output_directory_policy [of "''c1''" world0 "''/home''"]
  by (simp add: world0_def components_def starts_with_slash_def parse_path_def ancestors_def
      insert_commute)

text \<open>
  The claim as the spec states it has an explicit output directory created when it does
  not exist. In the sample world there is no directory \<open>out\<close>; the run with
  \<^verbatim>\<open>-o out\<close> ends with \<^verbatim>\<open>FileNotFoundError\<close> and has created nothing.
\<close>

theorem explicit_output_directory_not_created:
  "resolve (cwd world0) (parse_path ''out'') \<notin> dirs world0
   \<and> output_directory (Some ''out'') ''c1'' world0 = (Inl FileNotFoundError, world0)"
  by (simp add: output_directory_def chdir_def world0_def parse_path_def components_def
      starts_with_slash_def)

section \<open>Running the definitions\<close>

lemmas io_defs = io_bind_def io_ret_def io_raise_def io_lift_def io_exec_def thenE_def

lemmas path_defs = path_of_def joinpath_def parse_path_def components_def starts_with_slash_def
  resolve_def ancestors_def

lemmas step_defs = makedirs_def chdir_def write_if_new_def logger_debug_def session_get_def
  RateLimiter_def
  session_get_json_def raise_for_status_def r_json_def py_str_def as_str_def has_title_def
  attribute_def SaveInfo_def yield_from_def

lemmas run_defs = save_image_def save_images_def save_other_def process_post_def
  process_posts_def fetch_page_def first_page_posts_def first_page_def next_page_posts_def
  next_page_def output_directory_def main_def

lemmas sample_defs = post_video_def post_images_def post_text_def post_audio_def page1_def
  page2_def image_record_def answer_def demo_env_def world0_def page_env_def world1_def
  page_without_next_def page_empty_next_def post_no_images_def page_image_post_def

section \<open>The end of pagination\<close>

lemma page_loop_falsy:
  "\<not> truthy v \<Longrightarrow> page_loop fuel env st v media w = Some (Inr media, w)"
  by (subst page_loop.simps) simp

lemma page_loop_turn:
  "truthy u \<Longrightarrow>
   page_loop (Suc fuel) env st u media w =
     (case next_page env st u media w of
        (Inl e, w') \<Rightarrow> Some (Inl e, w')
      | (Inr (media', v), w') \<Rightarrow> page_loop fuel env st v media' w')"
  by (subst page_loop.simps) simp

lemma first_page_posts_next:
  "process_posts env posts st w = (Inr items, w') \<Longrightarrow>
   thenE (subscript posts ''links'') (\<lambda>l. subscript l ''next'') = Inr v \<Longrightarrow>
   first_page_posts env st posts w =
     (Inr (strings_of items, v), w'\<lparr>log := log w' @ [''Next URI: '' @ py_str env v]\<rparr>)"
  by (simp add: first_page_posts_def io_bind_result logger_debug_def io_ret_def io_lift_def io_exec_def io_raise_def)

lemma next_page_posts_next:
  "process_posts env posts st w = (Inr items, w') \<Longrightarrow>
   thenE (subscript posts ''links'') (\<lambda>l. subscript l ''next'') = Inr v \<Longrightarrow>
   next_page_posts env st media posts w =
     (Inr (media @ strings_of items, v), w'\<lparr>log := log w' @ [''Next URI: '' @ py_str env v]\<rparr>)"
  by (simp add: next_page_posts_def io_bind_result logger_debug_def io_ret_def io_lift_def io_exec_def io_raise_def)

lemma next_page_posts_absent:
  "process_posts env posts st w = (Inr items, w') \<Longrightarrow>
   thenE (subscript posts ''links'') (\<lambda>l. subscript l ''next'') = Inl (KeyError k) \<Longrightarrow>
   next_page_posts env st media posts w = (Inr (media @ strings_of items, JNull), w')"
  by (simp add: next_page_posts_def io_bind_result io_ret_def io_lift_def io_exec_def io_raise_def)

text \<open>
  Take a fetched page whose \<^verbatim>\<open>links.next\<close> is present with a falsy value \<open>v\<close> (the
  empty string, \<^verbatim>\<open>None\<close>, zero, an empty list or dict). If it is the first page of a
  run with a positive sleep time, the run goes from its posts straight to the dispatch
  of the media collected from them, with any fuel for the loop, even none: after the
  setup, the fetch of the page and the work on its posts, only the debug record of the
  cursor is added before the downloader is called, so no request for the cursor is sent.
  If it is a later page, the loop ends normally after its posts, in the same way. A
  later page whose continuation field is absent ends the loop with the same buffer and
  the same world, the debug record apart. (What the first page does when the field is
  absent is shown where the code departs from the spec.)
\<close>

theorem falsy_continuation_ends_pagination:
  assumes nx: "thenE (subscript posts ''links'') (\<lambda>l. subscript l ''next'') = Inr v"
    and falsy: "\<not> truthy v"
  shows
    "(0 < st
      \<and> output_directory output_dir campaign_id w = (Inr (), w1)
      \<and> fetch_page env (session_get env (POSTS_URI env) (Some campaign_id)) w1 = (Inr posts, w2)
      \<and> process_posts env posts st w2 = (Inr items, w3) \<longrightarrow>
        main env output_dir campaign_id fail L st fuel w =
          Some (dispatch env fail (chunks (unique_iter (strings_of items)) L)
                  (w3\<lparr>log := log w3 @ [''Next URI: '' @ py_str env v]\<rparr>)))
     \<and> (truthy u
      \<and> fetch_page env (session_get_json env u) w = (Inr posts, w2)
      \<and> process_posts env posts st w2 = (Inr items, w3) \<longrightarrow>
        page_loop (Suc fuel) env st u media w =
          Some (Inr (media @ strings_of items),
                w3\<lparr>log := log w3 @ [''Next URI: '' @ py_str env v]\<rparr>))
     \<and> (truthy u
      \<and> fetch_page env (session_get_json env u) w = (Inr absent, w2)
      \<and> thenE (subscript absent ''links'') (\<lambda>l. subscript l ''next'') = Inl (KeyError k)
      \<and> process_posts env absent st w2 = (Inr items, w3) \<longrightarrow>
        page_loop (Suc fuel) env st u media w = Some (Inr (media @ strings_of items), w3))"
proof (intro conjI impI)
  assume a: "0 < st
      \<and> output_directory output_dir campaign_id w = (Inr (), w1)
      \<and> fetch_page env (session_get env (POSTS_URI env) (Some campaign_id)) w1 = (Inr posts, w2)
      \<and> process_posts env posts st w2 = (Inr items, w3)"
  then have "first_page env campaign_id st w1 =
      (Inr (strings_of items, v), w3\<lparr>log := log w3 @ [''Next URI: '' @ py_str env v]\<rparr>)"
    using nx by (simp add: first_page_def io_bind_result first_page_posts_next)
  with a falsy show "main env output_dir campaign_id fail L st fuel w =
          Some (dispatch env fail (chunks (unique_iter (strings_of items)) L)
                  (w3\<lparr>log := log w3 @ [''Next URI: '' @ py_str env v]\<rparr>))"
    by (simp add: main_def RateLimiter_def page_loop_falsy)
next
  assume a: "truthy u
      \<and> fetch_page env (session_get_json env u) w = (Inr posts, w2)
      \<and> process_posts env posts st w2 = (Inr items, w3)"
  then have "next_page env st u media w =
      (Inr (media @ strings_of items, v), w3\<lparr>log := log w3 @ [''Next URI: '' @ py_str env v]\<rparr>)"
    using nx by (simp add: next_page_def io_bind_result next_page_posts_next)
  with a falsy show "page_loop (Suc fuel) env st u media w =
          Some (Inr (media @ strings_of items),
                w3\<lparr>log := log w3 @ [''Next URI: '' @ py_str env v]\<rparr>)"
    by (simp add: page_loop_turn page_loop_falsy)
next
  assume a: "truthy u
      \<and> fetch_page env (session_get_json env u) w = (Inr absent, w2)
      \<and> thenE (subscript absent ''links'') (\<lambda>l. subscript l ''next'') = Inl (KeyError k)
      \<and> process_posts env absent st w2 = (Inr items, w3)"
  then have "next_page env st u media w = (Inr (media @ strings_of items, JNull), w3)"
    by (simp add: next_page_def io_bind_result next_page_posts_absent)
  with a show "page_loop (Suc fuel) env st u media w = Some (Inr (media @ strings_of items), w3)"
    by (simp add: page_loop_turn page_loop_falsy)
qed

lemma sample_setup: "output_directory None ''c1'' world0 = (Inr (), world1)"
  by (simp add: run_defs step_defs path_defs io_defs sample_defs Let_def insert_commute)

lemma sample_fetch:
  "fetch_page (page_env page_empty_next)
     (session_get (page_env page_empty_next) (POSTS_URI (page_env page_empty_next)) (Some ''c1''))
     world1 = (Inr page_empty_next, world1\<lparr>requests := [Get ''posts'' (Some ''c1'')]\<rparr>)"
  by (simp add: run_defs step_defs io_defs sample_defs)

lemma sample_posts:
  "process_posts (page_env page_empty_next) page_empty_next 1
     (world1\<lparr>requests := [Get ''posts'' (Some ''c1'')]\<rparr>)
   = (Inr [Value (JStr ''u1'')], world1\<lparr>requests := [Get ''posts'' (Some ''c1'')]\<rparr>)"
  by (simp add: run_defs step_defs io_defs sample_defs)

lemma sample_next:
  "thenE (subscript page_empty_next ''links'') (\<lambda>l. subscript l ''next'') = Inr (JStr [])"
  by (simp add: io_defs sample_defs)

lemma sample_batches: "chunks (unique_iter [''u1'']) 20 = [[''u1'']]"
  by (simp add: unique_iter_def chunks_step)

lemma sample_dispatch:
  "dispatch (page_env page_empty_next) False [[''u1'']]
     (world1\<lparr>requests := [Get ''posts'' (Some ''c1'')],
        log := [''Next URI: '']\<rparr>)
   = (Inr (), world1\<lparr>requests := [Get ''posts'' (Some ''c1'')], downloads := [[''u1'']],
        log := [''Next URI: '', ''done'']\<rparr>)"
  by (simp add: sample_defs)

lemma sample_log:
  "world1\<lparr>requests := [Get ''posts'' (Some ''c1'')],
      log := log (world1\<lparr>requests := [Get ''posts'' (Some ''c1'')]\<rparr>)
               @ [''Next URI: '' @ py_str (page_env page_empty_next) (JStr [])]\<rparr>
   = world1\<lparr>requests := [Get ''posts'' (Some ''c1'')], log := [''Next URI: '']\<rparr>"
  by (simp add: world1_def world0_def py_str_def)

theorem falsy_continuation_ends_pagination_witness:
  "thenE (subscript page_empty_next ''links'') (\<lambda>l. subscript l ''next'') = Inr (JStr [])
   \<and> \<not> truthy (JStr [])
   \<and> main (page_env page_empty_next) None ''c1'' False 20 1 0 world0 =
       Some (Inr (), world1\<lparr>requests := [Get ''posts'' (Some ''c1'')], downloads := [[''u1'']],
               log := [''Next URI: '', ''done'']\<rparr>)"
proof -
  have falsy: "\<not> truthy (JStr [])" by simp
  have pos: "0 < (1::int)" by simp
  have "main (page_env page_empty_next) None ''c1'' False 20 1 0 world0 =
      Some (dispatch (page_env page_empty_next) False
              (chunks (unique_iter (strings_of [Value (JStr ''u1'')])) 20)
              (world1\<lparr>requests := [Get ''posts'' (Some ''c1'')],
                 log := log (world1\<lparr>requests := [Get ''posts'' (Some ''c1'')]\<rparr>)
                          @ [''Next URI: '' @ py_str (page_env page_empty_next) (JStr [])]\<rparr>))"
    using falsy_continuation_ends_pagination [OF sample_next falsy]
      pos sample_setup sample_fetch sample_posts
    by blast
  then show ?thesis
    using sample_next falsy
    by (simp only: sample_log strings_of.simps sample_batches sample_dispatch simp_thms)
qed

section \<open>Image sets\<close>

lemma digit_cases:
  "digit d \<in> set ''0123456789''"
proof -
  have "d mod 10 < length ''0123456789''" by simp
  then show ?thesis unfolding digit_def by (rule nth_mem)
qed

lemma digit_not_slash: "digit d \<noteq> CHR ''/''"
  using digit_cases [of d] by auto

lemma decimal_small: "n < 10 \<Longrightarrow> decimal n = [digit n]"
  by (subst decimal.simps) simp

lemma decimal_large: "10 \<le> n \<Longrightarrow> decimal n = decimal (n div 10) @ [digit (n mod 10)]"
  by (subst decimal.simps) simp

lemma decimal_not_Nil: "decimal n \<noteq> []"
  by (subst decimal.simps) simp

lemma decimal_length: "10 \<le> n \<Longrightarrow> 2 \<le> length (decimal n)"
proof -
  assume "10 \<le> n"
  then have "decimal n = decimal (n div 10) @ [digit (n mod 10)]" by (rule decimal_large)
  moreover have "1 \<le> length (decimal (n div 10))"
    using decimal_not_Nil [of "n div 10"] by (cases "decimal (n div 10)") auto
  ultimately show ?thesis by simp
qed

lemma decimal_digits: "set (decimal n) \<subseteq> set ''0123456789''"
proof (induction n rule: decimal.induct)
  case (1 n)
  show ?case
  proof (cases "n < 10")
    case True
    then show ?thesis using digit_cases [of n] by (simp add: decimal_small)
  next
    case False
    then have "decimal n = decimal (n div 10) @ [digit (n mod 10)]"
      by (simp add: decimal_large)
    with 1 False digit_cases [of "n mod 10"] show ?thesis by simp
  qed
qed

lemma format_02d_zero_padded: "format_02d n = zero_padded n"
proof (cases "n < 10")
  case True
  then show ?thesis by (simp add: format_02d_def zero_padded_def decimal_small)
next
  case False
  then have "2 \<le> length (decimal n)" by (simp add: decimal_length)
  with False show ?thesis by (simp add: format_02d_def zero_padded_def)
qed

lemma zero_padded_start: "\<not> starts_with_slash (zero_padded n @ s)"
proof -
  obtain c cs where d: "decimal n = c # cs"
    using decimal_not_Nil [of n] by (cases "decimal n") auto
  then have "c \<in> set ''0123456789''" using decimal_digits [of n] by simp
  then have "c \<noteq> CHR ''/''" by auto
  with d show ?thesis by (simp add: zero_padded_def starts_with_slash_def)
qed

lemma components_images [simp]:
  "components (CHR ''i'' # CHR ''m'' # CHR ''a'' # CHR ''g'' # CHR ''e'' # CHR ''s'' # CHR ''/'' # s)
   = ''images'' # components s"
  using components_append [of "''images''" s] by (simp add: components_def)

lemma target_dir_images:
  "\<not> starts_with_slash pid \<Longrightarrow>
   path_of [''.'', ''images'', pid] = Path False (''images'' # components pid)"
  by (simp add: path_of_def joinpath_def starts_with_slash_def components_def)

lemma image_path:
  assumes "\<not> starts_with_slash pid"
  shows "joinpath (path_of [''.'', ''images'', pid]) (format_02d n @ CHR ''-'' # sid @ CHR ''.'' # ext)
         = parse_path (image_file_name pid n sid ext)"
proof -
  let ?name = "zero_padded n @ ''-'' @ sid @ ''.'' @ ext"
  have rel: "\<not> starts_with_slash ?name" by (rule zero_padded_start)
  have "components (image_file_name pid n sid ext) = ''images'' # components pid @ components ?name"
    by (simp add: image_file_name_def components_append)
  moreover have "\<not> starts_with_slash (image_file_name pid n sid ext)"
    by (simp add: image_file_name_def starts_with_slash_def)
  ultimately show ?thesis
    using assms rel
    by (simp add: target_dir_images joinpath_def parse_path_def format_02d_zero_padded)
qed

lemma post_json_path:
  assumes "\<not> starts_with_slash pid"
  shows "joinpath (path_of [''.'', ''images'', pid]) ''post.json''
         = parse_path (''images/'' @ pid @ ''/post.json'')"
proof -
  have "components (''images/'' @ pid @ ''/post.json'') = ''images'' # components pid @ components ''post.json''"
    using components_append [of pid "''post.json''"] by simp
  moreover have "\<not> starts_with_slash (''images/'' @ pid @ ''/post.json'')"
    by (simp add: starts_with_slash_def)
  ultimately show ?thesis
    using assms
    by (simp add: target_dir_images joinpath_def parse_path_def starts_with_slash_def)
qed

lemma save_image_step:
  assumes "save_image env td (n, iid) w = (Inr (), w')"
  shows "\<exists>s. sub_resource_of env iid = Inr s
     \<and> w' = write_if_new (joinpath td (format_02d n @ ''-'' @ sub_id s @ ''.'' @ extension s))
              (Binary (payload s))
              (w\<lparr>requests := requests w
                   @ [Get (MEDIA_URI env @ ''/'' @ py_str env iid) None, Get (original s) None]\<rparr>)"
  using assms
  by (auto simp: save_image_def sub_resource_of_def session_get_def session_get_json_def
      io_defs as_str_def split: sum.splits json.splits prod.splits)

lemma write_if_new_frame [simp]:
  "cwd (write_if_new p c w) = cwd w"
  "requests (write_if_new p c w) = requests w"
  "write_calls (write_if_new p c w) = write_calls w @ [(resolve (cwd w) p, c)]"
  "files (write_if_new p c w) = keep_first (files w) (resolve (cwd w) p, c)"
  by (simp_all add: write_if_new_def keep_first_def Let_def)

lemma makedirs_frame:
  "makedirs p w = (Inr (), w') \<Longrightarrow>
   cwd w' = cwd w \<and> requests w' = requests w \<and> write_calls w' = write_calls w
   \<and> files w' = files w"
  by (auto simp: makedirs_def Let_def split: if_splits)

lemma io_bind_Inr:
  "io_bind m f w = (Inr y, w') \<Longrightarrow> \<exists>x w1. m w = (Inr x, w1) \<and> f x w1 = (Inr y, w')"
  by (auto simp: io_bind_def split: prod.splits sum.splits)

lemma keep_first_taken: "f p \<noteq> None \<Longrightarrow> foldl keep_first f cs p = f p"
  by (induction cs arbitrary: f) (auto simp: keep_first_def)

lemma keep_first_fresh:
  "distinct (map fst cs) \<Longrightarrow> \<forall>pc \<in> set cs. f (fst pc) = None \<Longrightarrow> pc \<in> set cs \<Longrightarrow>
   foldl keep_first f cs (fst pc) = Some (snd pc)"
proof (induction cs arbitrary: f)
  case Nil
  then show ?case by simp
next
  case (Cons c cs)
  show ?case
  proof (cases "pc = c")
    case True
    have "keep_first f c (fst c) = Some (snd c)"
      using Cons.prems(2) by (simp add: keep_first_def)
    then have "foldl keep_first (keep_first f c) cs (fst c) = Some (snd c)"
      using keep_first_taken [of "keep_first f c" "fst c" cs] by simp
    with True show ?thesis by simp
  next
    case False
    with Cons.prems have mem: "pc \<in> set cs" by simp
    have "fst q \<noteq> fst c" if "q \<in> set cs" for q
      using that Cons.prems(1) by (auto simp: image_iff)
    then have "\<forall>q \<in> set cs. keep_first f c (fst q) = None"
      using Cons.prems(2) by (simp add: keep_first_def)
    with Cons.IH [of "keep_first f c"] Cons.prems(1) mem show ?thesis by simp
  qed
qed

lemma save_image_loop:
  "io_foreach (save_image env td) (enumerate n ids) w = (Inr (), w') \<Longrightarrow>
   \<exists>subs. map (sub_resource_of env) ids = map Inr subs
     \<and> cwd w' = cwd w
     \<and> requests w' = requests w @ concat (map (\<lambda>(iid, s).
          [Get (MEDIA_URI env @ ''/'' @ py_str env iid) None, Get (original s) None]) (zip ids subs))
     \<and> write_calls w' = write_calls w @ map (\<lambda>(k, s).
          (resolve (cwd w) (joinpath td (format_02d k @ ''-'' @ sub_id s @ ''.'' @ extension s)),
           Binary (payload s))) (enumerate n subs)
     \<and> files w' = foldl keep_first (files w) (map (\<lambda>(k, s).
          (resolve (cwd w) (joinpath td (format_02d k @ ''-'' @ sub_id s @ ''.'' @ extension s)),
           Binary (payload s))) (enumerate n subs))"
proof (induction ids arbitrary: n w)
  case Nil
  then have "w' = w" by (simp add: io_ret_def)
  then show ?case by simp
next
  case (Cons iid ids)
  from Cons.prems obtain w1 where
    one: "save_image env td (n, iid) w = (Inr (), w1)" and
    rest: "io_foreach (save_image env td) (enumerate (Suc n) ids) w1 = (Inr (), w')"
    by (auto simp: enumerate_simps dest!: io_bind_Inr)
  from save_image_step [OF one] obtain s where
    s: "sub_resource_of env iid = Inr s" and
    w1: "w1 = write_if_new (joinpath td (format_02d n @ ''-'' @ sub_id s @ ''.'' @ extension s))
              (Binary (payload s))
              (w\<lparr>requests := requests w
                   @ [Get (MEDIA_URI env @ ''/'' @ py_str env iid) None, Get (original s) None]\<rparr>)"
    by blast
  from Cons.IH [OF rest] obtain subs where
    subs: "map (sub_resource_of env) ids = map Inr subs" and
    c: "cwd w' = cwd w1" and
    r: "requests w' = requests w1 @ concat (map (\<lambda>(iid, s).
          [Get (MEDIA_URI env @ ''/'' @ py_str env iid) None, Get (original s) None]) (zip ids subs))" and
    wc: "write_calls w' = write_calls w1 @ map (\<lambda>(k, s).
          (resolve (cwd w1) (joinpath td (format_02d k @ ''-'' @ sub_id s @ ''.'' @ extension s)),
           Binary (payload s))) (enumerate (Suc n) subs)" and
    fs: "files w' = foldl keep_first (files w1) (map (\<lambda>(k, s).
          (resolve (cwd w1) (joinpath td (format_02d k @ ''-'' @ sub_id s @ ''.'' @ extension s)),
           Binary (payload s))) (enumerate (Suc n) subs))"
    by blast
  have "map (sub_resource_of env) (iid # ids) = map Inr (s # subs)"
    using s subs by simp
  moreover have "cwd w' = cwd w" using c w1 by simp
  moreover have "requests w' = requests w @ concat (map (\<lambda>(iid, s).
          [Get (MEDIA_URI env @ ''/'' @ py_str env iid) None, Get (original s) None])
          (zip (iid # ids) (s # subs)))"
    using r w1 by simp
  moreover have "write_calls w' = write_calls w @ map (\<lambda>(k, s).
          (resolve (cwd w) (joinpath td (format_02d k @ ''-'' @ sub_id s @ ''.'' @ extension s)),
           Binary (payload s))) (enumerate n (s # subs))"
    using wc w1 by (simp add: enumerate_simps)
  moreover have "files w' = foldl keep_first (files w) (map (\<lambda>(k, s).
          (resolve (cwd w) (joinpath td (format_02d k @ ''-'' @ sub_id s @ ''.'' @ extension s)),
           Binary (payload s))) (enumerate n (s # subs)))"
    using fs w1 by (simp add: enumerate_simps)
  ultimately show ?case by blast
qed

text \<open>What a run of \<^verbatim>\<open>save_images\<close> that returns has done.\<close>

lemma save_images_trace:
  assumes run: "save_images env pdd st w = (Inr d, w')"
    and pid: "subscript pdd ''id'' = Inr (JStr pid)"
    and order: "thenE (attribute pdd ''post_metadata'')
                  (\<lambda>m. thenE (subscript m ''image_order'') py_iter) = Inr ids"
  shows "\<exists>subs. map (sub_resource_of env) ids = map Inr subs
     \<and> requests w' = requests w @ concat (map (\<lambda>(iid, s).
          [Get (MEDIA_URI env @ ''/'' @ py_str env iid) None, Get (original s) None]) (zip ids subs))
     \<and> write_calls w' = write_calls w
          @ (resolve (cwd w) (joinpath (path_of [''.'', ''images'', pid]) ''post.json''),
             Text (json_dumps env pdd @ [CHR 0x0A]))
          # map (\<lambda>(n, s).
              (resolve (cwd w) (joinpath (path_of [''.'', ''images'', pid])
                 (format_02d n @ ''-'' @ sub_id s @ ''.'' @ extension s)),
               Binary (payload s))) (enumerate 1 subs)
     \<and> files w' = foldl keep_first (files w)
          (drop (length (write_calls w)) (write_calls w'))"
proof -
  let ?td = "path_of [''.'', ''images'', pid]"
  from run pid order obtain w1 w2 where
    mk: "makedirs ?td w = (Inr (), w1)" and
    w2: "w2 = write_if_new (joinpath ?td ''post.json'') (Text (json_dumps env pdd @ [CHR 0x0A])) w1" and
    loop: "io_foreach (save_image env ?td) (enumerate 1 ids) w2 = (Inr (), w')"
    by (auto simp: save_images_def as_str_def thenE_def io_ret_def io_lift_def io_exec_def Let_def
        dest!: io_bind_Inr split: sum.splits)
  from makedirs_frame [OF mk] have f1:
    "cwd w1 = cwd w" "requests w1 = requests w" "write_calls w1 = write_calls w"
    "files w1 = files w"
    by simp_all
  from save_image_loop [OF loop] obtain subs where
    subs: "map (sub_resource_of env) ids = map Inr subs" and
    r: "requests w' = requests w2 @ concat (map (\<lambda>(iid, s).
          [Get (MEDIA_URI env @ ''/'' @ py_str env iid) None, Get (original s) None]) (zip ids subs))" and
    wc: "write_calls w' = write_calls w2 @ map (\<lambda>(k, s).
          (resolve (cwd w2) (joinpath ?td (format_02d k @ ''-'' @ sub_id s @ ''.'' @ extension s)),
           Binary (payload s))) (enumerate 1 subs)" and
    fs: "files w' = foldl keep_first (files w2) (map (\<lambda>(k, s).
          (resolve (cwd w2) (joinpath ?td (format_02d k @ ''-'' @ sub_id s @ ''.'' @ extension s)),
           Binary (payload s))) (enumerate 1 subs))"
    by blast
  have a: "requests w' = requests w @ concat (map (\<lambda>(iid, s).
          [Get (MEDIA_URI env @ ''/'' @ py_str env iid) None, Get (original s) None]) (zip ids subs))"
    using r w2 f1 by simp
  have b: "write_calls w' = write_calls w
          @ (resolve (cwd w) (joinpath ?td ''post.json''), Text (json_dumps env pdd @ [CHR 0x0A]))
          # map (\<lambda>(n, s).
              (resolve (cwd w) (joinpath ?td (format_02d n @ ''-'' @ sub_id s @ ''.'' @ extension s)),
               Binary (payload s))) (enumerate 1 subs)"
    using wc w2 f1 by (simp del: resolve_simps)
  have c: "files w' = foldl keep_first (files w) (drop (length (write_calls w)) (write_calls w'))"
    using fs w2 f1 by (simp add: b del: resolve_simps)
  from subs a b c show ?thesis by blast
qed

text \<open>A run whose sub-resources can all be fetched returns.\<close>

lemma save_image_runs:
  assumes "sub_resource_of env iid = Inr s"
  shows "\<exists>w'. save_image env td (n, iid) w = (Inr (), w')"
  using assms
  by (auto simp: save_image_def sub_resource_of_def session_get_def session_get_json_def
      io_defs as_str_def split: sum.splits json.splits prod.splits)

lemma save_image_loop_runs:
  "map (sub_resource_of env) ids = map Inr subs \<Longrightarrow>
   \<exists>w'. io_foreach (save_image env td) (enumerate n ids) w = (Inr (), w')"
proof (induction ids arbitrary: n w subs)
  case Nil
  show ?case by (simp add: io_ret_def)
next
  case (Cons iid ids)
  from Cons.prems obtain s rest where s: "sub_resource_of env iid = Inr s"
    and rest: "map (sub_resource_of env) ids = map Inr rest"
    by (cases subs) auto
  from save_image_runs [OF s] obtain w1 where
    "save_image env td (n, iid) w = (Inr (), w1)" by blast
  moreover from Cons.IH [OF rest] obtain w' where
    "io_foreach (save_image env td) (enumerate (Suc n) ids) w1 = (Inr (), w')" by blast
  ultimately show ?case by (auto simp: enumerate_simps io_bind_result)
qed

lemma save_images_runs:
  assumes "attribute pdd ''url'' = Inr u"
    and "subscript pdd ''id'' = Inr (JStr pid)"
    and "makedirs (path_of [''.'', ''images'', pid]) w = (Inr (), w1)"
    and "thenE (attribute pdd ''post_metadata'')
           (\<lambda>m. thenE (subscript m ''image_order'') py_iter) = Inr ids"
    and "map (sub_resource_of env) ids = map Inr subs"
    and "0 < st"
  shows "\<exists>w'. save_images env pdd st w
           = (Inr (SaveInfo pdd (path_of [''.'', ''images'', pid])), w')"
proof -
  from save_image_loop_runs [OF assms(5)] obtain w' where
    "io_foreach (save_image env (path_of [''.'', ''images'', pid])) (enumerate 1 ids)
       (write_if_new (joinpath (path_of [''.'', ''images'', pid]) ''post.json'')
          (Text (json_dumps env pdd @ [CHR 0x0A])) w1) = (Inr (), w')"
    by blast
  with assms(1-4,6) show ?thesis
    by (simp add: save_images_def as_str_def thenE_def io_bind_result io_lift_def io_exec_def
        io_ret_def RateLimiter_def Let_def)
qed

text \<open>
  Claim C8. Take an image post whose id \<open>pid\<close> is a string that does not begin with a
  slash, and a run of \<^verbatim>\<open>save_images\<close> on it that returns. Then every identifier of
  \<^verbatim>\<open>image_order\<close> has a sub-resource, and, in the order of \<^verbatim>\<open>image_order\<close>: the requests
  sent are, for each identifier, the lookup of its record and then the fetch of its
  \<^verbatim>\<open>original\<close> URL; after \<^verbatim>\<open>post.json\<close>, \<^verbatim>\<open>write_if_new\<close> is called once for each
  identifier with the binary content and the target
  \<^verbatim>\<open>images/<pid>/<NN>-<subresource.id>.<ext>\<close>, where \<open>NN\<close> is the index counted from one
  and zero-padded to two digits and \<open>ext\<close> comes from the mime type. When the targets
  differ from each other and none exists before, each holds its content afterwards.
\<close>

theorem save_images_layout:
  assumes run: "save_images env pdd st w = (Inr d, w')"
    and pid: "subscript pdd ''id'' = Inr (JStr pid)" "\<not> starts_with_slash pid"
    and order: "thenE (attribute pdd ''post_metadata'')
                  (\<lambda>m. thenE (subscript m ''image_order'') py_iter) = Inr ids"
  shows "\<exists>subs. map (sub_resource_of env) ids = map Inr subs
     \<and> requests w' = requests w @ concat (map (\<lambda>(iid, s).
          [Get (MEDIA_URI env @ ''/'' @ py_str env iid) None, Get (original s) None]) (zip ids subs))
     \<and> write_calls w' = write_calls w
          @ (resolve (cwd w) (parse_path (''images/'' @ pid @ ''/post.json'')),
             Text (json_dumps env pdd @ [CHR 0x0A]))
          # map (\<lambda>(n, s).
              (resolve (cwd w) (parse_path (image_file_name pid n (sub_id s) (extension s))),
               Binary (payload s))) (enumerate 1 subs)
     \<and> (distinct (map fst (drop (length (write_calls w)) (write_calls w')))
          \<and> (\<forall>pc \<in> set (drop (length (write_calls w)) (write_calls w')). files w (fst pc) = None)
          \<longrightarrow> (\<forall>pc \<in> set (drop (length (write_calls w)) (write_calls w')).
                 files w' (fst pc) = Some (snd pc)))"
proof -
  let ?new = "drop (length (write_calls w)) (write_calls w')"
  from save_images_trace [OF run pid(1) order] obtain subs where
    subs: "map (sub_resource_of env) ids = map Inr subs" and
    r: "requests w' = requests w @ concat (map (\<lambda>(iid, s).
          [Get (MEDIA_URI env @ ''/'' @ py_str env iid) None, Get (original s) None]) (zip ids subs))" and
    wc: "write_calls w' = write_calls w
          @ (resolve (cwd w) (joinpath (path_of [''.'', ''images'', pid]) ''post.json''),
             Text (json_dumps env pdd @ [CHR 0x0A]))
          # map (\<lambda>(n, s).
              (resolve (cwd w) (joinpath (path_of [''.'', ''images'', pid])
                 (format_02d n @ ''-'' @ sub_id s @ ''.'' @ extension s)),
               Binary (payload s))) (enumerate 1 subs)" and
    fs: "files w' = foldl keep_first (files w) ?new"
    by blast
  have names: "write_calls w' = write_calls w
          @ (resolve (cwd w) (parse_path (''images/'' @ pid @ ''/post.json'')),
             Text (json_dumps env pdd @ [CHR 0x0A]))
          # map (\<lambda>(n, s).
              (resolve (cwd w) (parse_path (image_file_name pid n (sub_id s) (extension s))),
               Binary (payload s))) (enumerate 1 subs)"
    using wc pid(2) by (auto simp: image_path post_json_path simp del: resolve_simps)
  have fresh: "\<forall>pc \<in> set ?new. files w' (fst pc) = Some (snd pc)"
    if "distinct (map fst ?new)" and "\<forall>pc \<in> set ?new. files w (fst pc) = None"
    using keep_first_fresh [OF that] fs by simp
  from subs r names fresh show ?thesis by blast
qed

lemma sample_sub_a:
  "sub_resource_of demo_env (JStr ''a'') =
     Inr \<lparr>sub_id = ''a'', extension = ''png'', original = ''img/a'', payload = ''bytes of a''\<rparr>"
  by (simp add: sub_resource_of_def step_defs io_defs sample_defs)

lemma sample_sub_b:
  "sub_resource_of demo_env (JStr ''b'') =
     Inr \<lparr>sub_id = ''b'', extension = ''png'', original = ''img/b'', payload = ''Not Found''\<rparr>"
  by (simp add: sub_resource_of_def step_defs io_defs sample_defs)

lemma sample_images_dir:
  "makedirs (path_of [''.'', ''images'', ''p1'']) world1 =
     (Inr (), world1\<lparr>dirs := dirs world1 \<union> set (ancestors (Path True [''home'', ''c1'', ''images'', ''p1'']))\<rparr>)"
  by (simp add: makedirs_def path_defs sample_defs Let_def)

lemma sample_images_order:
  "thenE (attribute post_images ''post_metadata'')
     (\<lambda>m. thenE (subscript m ''image_order'') py_iter) = Inr [JStr ''a'', JStr ''b'']"
  by (simp add: attribute_def thenE_def post_images_def)

theorem save_images_layout_witness:
  "subscript post_images ''id'' = Inr (JStr ''p1'') \<and> \<not> starts_with_slash ''p1''
   \<and> fst (save_images demo_env post_images 1 world1)
       = Inr (SaveInfo post_images (path_of [''.'', ''images'', ''p1'']))
   \<and> requests (snd (save_images demo_env post_images 1 world1))
       = [Get ''media/a'' None, Get ''img/a'' None, Get ''media/b'' None, Get ''img/b'' None]
   \<and> write_calls (snd (save_images demo_env post_images 1 world1))
       = [(Path True [''home'', ''c1'', ''images'', ''p1'', ''post.json''], Text (''{}'' @ [CHR 0x0A])),
          (Path True [''home'', ''c1'', ''images'', ''p1'', ''01-a.png''], Binary ''bytes of a''),
          (Path True [''home'', ''c1'', ''images'', ''p1'', ''02-b.png''], Binary ''Not Found'')]"
proof -
  have url: "attribute post_images ''url'' = Inr (JStr ''u2'')"
    by (simp add: attribute_def thenE_def post_images_def)
  have pid: "subscript post_images ''id'' = Inr (JStr ''p1'')"
    by (simp add: post_images_def)
  have rel: "\<not> starts_with_slash ''p1''"
    by (simp add: starts_with_slash_def)
  have subs: "map (sub_resource_of demo_env) [JStr ''a'', JStr ''b''] =
      map Inr [\<lparr>sub_id = ''a'', extension = ''png'', original = ''img/a'', payload = ''bytes of a''\<rparr>,
               \<lparr>sub_id = ''b'', extension = ''png'', original = ''img/b'', payload = ''Not Found''\<rparr>]"
    by (simp add: sample_sub_a sample_sub_b)
  have pos: "0 < (1::int)" by simp
  from save_images_runs [OF url pid sample_images_dir sample_images_order subs pos]
  obtain w' where run: "save_images demo_env post_images 1 world1
      = (Inr (SaveInfo post_images (path_of [''.'', ''images'', ''p1''])), w')"
    by blast
  from save_images_layout [OF run pid rel sample_images_order] obtain found where
    found: "map (sub_resource_of demo_env) [JStr ''a'', JStr ''b''] = map Inr found" and
    r: "requests w' = requests world1 @ concat (map (\<lambda>(iid, s).
          [Get (MEDIA_URI demo_env @ ''/'' @ py_str demo_env iid) None, Get (original s) None])
          (zip [JStr ''a'', JStr ''b''] found))" and
    wc: "write_calls w' = write_calls world1
          @ (resolve (cwd world1) (parse_path (''images/'' @ ''p1'' @ ''/post.json'')),
             Text (json_dumps demo_env post_images @ [CHR 0x0A]))
          # map (\<lambda>(n, s).
              (resolve (cwd world1) (parse_path (image_file_name ''p1'' n (sub_id s) (extension s))),
               Binary (payload s))) (enumerate 1 found)"
    by blast
  from found have f: "found =
      [\<lparr>sub_id = ''a'', extension = ''png'', original = ''img/a'', payload = ''bytes of a''\<rparr>,
       \<lparr>sub_id = ''b'', extension = ''png'', original = ''img/b'', payload = ''Not Found''\<rparr>]"
    by (auto simp: sample_sub_a sample_sub_b map_eq_Cons_conv)
  have two: "enumerate 1 found = [(1, found ! 0), (2, found ! 1)]"
    unfolding f by (simp add: enumerate_simps)
  have r': "requests w'
       = [Get ''media/a'' None, Get ''img/a'' None, Get ''media/b'' None, Get ''img/b'' None]"
    unfolding r f by (simp add: demo_env_def py_str_def world1_def world0_def)
  have wc': "write_calls w'
       = [(Path True [''home'', ''c1'', ''images'', ''p1'', ''post.json''], Text (''{}'' @ [CHR 0x0A])),
          (Path True [''home'', ''c1'', ''images'', ''p1'', ''01-a.png''], Binary ''bytes of a''),
          (Path True [''home'', ''c1'', ''images'', ''p1'', ''02-b.png''], Binary ''Not Found'')]"
    unfolding wc two f
    by (simp add: image_file_name_def zero_padded_def decimal_small digit_def parse_path_def
        components_def starts_with_slash_def demo_env_def world1_def world0_def)
  from pid rel run r' wc' show ?thesis by simp
qed

section \<open>Where the code departs from the spec\<close>

text \<open>
  Claim C1 has an image post contribute nothing to the media buffer. The code does
  \<^verbatim>\<open>yield from save_images(...)\<close>, which iterates over the returned dict and yields its
  two keys; both are strings and pass the \<^verbatim>\<open>isinstance(x, str)\<close> filter. For a first page
  whose only post is an image post, the buffer after the page holds the two keys, and the
  run hands them to the downloader as if they were media URIs.
\<close>

theorem image_post_enters_media_buffer:
  "fst (first_page (page_env page_image_post) ''c1'' 1 world1)
     = Inr ([''post_data_dict'', ''target_dir''], JNull)
   \<and> map_option (\<lambda>r. (fst r, downloads (snd r)))
        (main (page_env page_image_post) None ''c1'' False 20 1 0 world0)
     = Some (Inr (), [[''post_data_dict'', ''target_dir'']])"
  by code_simp

text \<open>
  Claim C2 has a missing continuation field end pagination normally on every page,
  the first included. On the first page the lookup has no handler: a run whose first
  page has no \<^verbatim>\<open>next\<close> under \<^verbatim>\<open>links\<close> ends with \<^verbatim>\<open>KeyError\<close> after the one request
  and before any dispatch. The same page met as the second page ends pagination
  normally, and the run goes on to the dispatch.
\<close>

theorem first_page_without_next_raises:
  "map_option (\<lambda>r. (fst r, requests (snd r), downloads (snd r)))
     (main (page_env page_without_next) None ''c1'' False 20 1 5 world0)
     = Some (Inl (KeyError ''next''), [Get ''posts'' (Some ''c1'')], [])
   \<and> page2 = page_without_next
   \<and> map_option (\<lambda>r. (fst r, requests (snd r), downloads (snd r)))
     (main two_page_env None ''c1'' False 20 1 5 world0)
     = Some (Inr (), [Get ''posts'' (Some ''c1''), Get ''page2'' None], [[''u1'']])"
  by code_simp

text \<open>
  Claim C3 has a response with a status outside 2xx abort the run during the work on an
  image set. \<^verbatim>\<open>save_images\<close> never calls \<^verbatim>\<open>raise_for_status\<close>, as the page fetches of
  \<^verbatim>\<open>main\<close> do: when the server answers the request for the image with 404, the run of
  \<^verbatim>\<open>save_images\<close> returns normally and the body of the error response is on disk under
  the name of the image.
\<close>

theorem error_body_saved_as_image:
  "transport demo_env (Get ''img/b'' None) = Inr \<lparr>status_code = 404, body = ''Not Found''\<rparr>
   \<and> fst (save_images demo_env post_one_image 1 world1)
       = Inr (SaveInfo post_one_image (Path False [''images'', ''p5'']))
   \<and> files (snd (save_images demo_env post_one_image 1 world1))
        (Path True [''home'', ''c1'', ''images'', ''p5'', ''01-b.png''])
       = Some (Binary ''Not Found'')"
  by code_simp

text \<open>
  Claim C10 has a page whose \<^verbatim>\<open>links.next\<close> is present and falsy end pagination
  without a request for the cursor, on every page and exactly as a page without the
  field does. The first half holds: a first page with the empty string under \<^verbatim>\<open>next\<close>
  sends the one request and goes on to the dispatch. The comparison fails on the first
  page, by the defect of claim C2: the same page without the field ends the run with
  \<^verbatim>\<open>KeyError\<close> and nothing is dispatched.
\<close>

theorem falsy_and_absent_differ_on_first_page:
  "map_option (\<lambda>r. (fst r, requests (snd r), downloads (snd r)))
     (main (page_env page_empty_next) None ''c1'' False 20 1 0 world0)
     = Some (Inr (), [Get ''posts'' (Some ''c1'')], [[''u1'']])
   \<and> map_option (\<lambda>r. (fst r, requests (snd r), downloads (snd r)))
     (main (page_env page_without_next) None ''c1'' False 20 1 0 world0)
     = Some (Inl (KeyError ''next''), [Get ''posts'' (Some ''c1'')], [])"
  by code_simp

section \<open>The other two kinds of post\<close>

lemma components_other [simp]:
  "components ''other'' = [''other'']"
  by (simp add: components_def)

lemma other_dir: "path_of [''.'', ''other''] = Path False [''other'']"
  by (simp add: path_of_def joinpath_def starts_with_slash_def components_def)

text \<open>
  An embed post (\<^verbatim>\<open>audio_file\<close>, \<^verbatim>\<open>audio_embed\<close>, \<^verbatim>\<open>video_embed\<close>) yields its
  \<^verbatim>\<open>url\<close> and nothing else, and leaves the world as it is: no request, no directory,
  no file. A \<^verbatim>\<open>url\<close> that is a string is what the post adds to the media buffer.
\<close>

theorem embed_post_yields_url:
  "attribute post ''post_type'' = Inr t
   \<and> t \<in> {JStr ''audio_file'', JStr ''audio_embed'', JStr ''video_embed''}
   \<and> attribute post ''url'' = Inr (JStr u) \<longrightarrow>
     process_post env st post w = (Inr [Value (JStr u)], w)
     \<and> strings_of [Value (JStr u)] = [u]"
  by (auto simp: process_post_def io_defs)

theorem embed_post_yields_url_witness:
  "attribute post_audio ''post_type'' = Inr (JStr ''audio_embed'')
   \<and> attribute post_audio ''url'' = Inr (JStr ''u1'')
   \<and> process_post demo_env 1 post_audio world1 = (Inr [Value (JStr ''u1'')], world1)"
  using embed_post_yields_url [of post_audio "JStr ''audio_embed''" "''u1''" demo_env 1 world1]
  by (simp add: attribute_def thenE_def post_audio_def)

text \<open>
  A post of any other type whose run of \<^verbatim>\<open>process_post\<close> returns adds no string to the
  media buffer and sends no request; \<^verbatim>\<open>write_if_new\<close> is called exactly once, with the
  pretty-printed post and a target that, for a type that does not begin with a slash,
  lies in \<^verbatim>\<open>other/\<close> and is named \<^verbatim>\<open><post_type>-<post.id>.json\<close>.
\<close>

theorem other_post_is_dumped:
  assumes "attribute post ''post_type'' = Inr (JStr t)"
    and "t \<notin> {''audio_file'', ''audio_embed'', ''video_embed'', ''image_file''}"
    and "\<not> starts_with_slash t"
    and "process_post env st post w = (Inr items, w')"
  shows "\<exists>pid. subscript post ''id'' = Inr pid
     \<and> strings_of items = []
     \<and> requests w' = requests w
     \<and> write_calls w' = write_calls w
          @ [(resolve (cwd w)
                (Path False (''other'' # components (t @ ''-'' @ py_str env pid @ ''.json''))),
              Text (json_dumps env post @ [CHR 0x0A]))]"
proof -
  from assms(1,2,4) obtain d where
    so: "save_other env post w = (Inr d, w')" and items: "items = [Info d]"
    by (auto simp: process_post_def io_lift_def io_ret_def dest!: io_bind_Inr split: if_splits)
  from so assms(1) obtain pid w1 where
    pid: "subscript post ''id'' = Inr pid" and
    mk: "makedirs (path_of [''.'', ''other'']) w = (Inr (), w1)" and
    w': "w' = write_if_new
           (joinpath (path_of [''.'', ''other'']) (py_str env (JStr t) @ ''-'' @ py_str env pid @ ''.json''))
           (Text (json_dumps env post @ [CHR 0x0A])) w1"
    by (auto simp: save_other_def has_title_def as_str_def thenE_def io_ret_def io_lift_def
        io_exec_def Let_def dest!: io_bind_Inr split: sum.splits json.splits)
  from makedirs_frame [OF mk] have f1:
    "cwd w1 = cwd w" "requests w1 = requests w" "write_calls w1 = write_calls w"
    by simp_all
  have rel: "\<not> starts_with_slash (t @ ''-'' @ py_str env pid @ ''.json'')"
    using assms(3) by (cases t) (simp_all add: starts_with_slash_def)
  have name: "joinpath (path_of [''.'', ''other'']) (py_str env (JStr t) @ ''-'' @ py_str env pid @ ''.json'')
      = Path False (''other'' # components (t @ ''-'' @ py_str env pid @ ''.json''))"
    using rel by (simp add: other_dir joinpath_def py_str_def)
  have "strings_of items = []" using items by simp
  moreover have "requests w' = requests w" using w' f1 by simp
  moreover have "write_calls w' = write_calls w
          @ [(resolve (cwd w)
                (Path False (''other'' # components (t @ ''-'' @ py_str env pid @ ''.json''))),
              Text (json_dumps env post @ [CHR 0x0A]))]"
    unfolding w' using f1 by (simp only: write_if_new_frame name)
  ultimately show ?thesis using pid by blast
qed

lemma sample_other:
  "fst (process_post demo_env 1 post_text world1)
     = Inr [Info (SaveInfo post_text (Path False [''other'']))]"
  by code_simp

theorem other_post_is_dumped_witness:
  "attribute post_text ''post_type'' = Inr (JStr ''text_only'')
   \<and> ''text_only'' \<notin> {''audio_file'', ''audio_embed'', ''video_embed'', ''image_file''}
   \<and> \<not> starts_with_slash ''text_only''
   \<and> write_calls (snd (process_post demo_env 1 post_text world1))
       = [(Path True [''home'', ''c1'', ''other'', ''text_only-p2.json''], Text (''{}'' @ [CHR 0x0A]))]"
proof -
  have t: "attribute post_text ''post_type'' = Inr (JStr ''text_only'')"
    by (simp add: attribute_def thenE_def post_text_def)
  have n: "''text_only'' \<notin> {''audio_file'', ''audio_embed'', ''video_embed'', ''image_file''}"
    by simp
  have r: "\<not> starts_with_slash ''text_only''"
    by (simp add: starts_with_slash_def)
  have run: "process_post demo_env 1 post_text world1
      = (Inr [Info (SaveInfo post_text (Path False [''other'']))],
         snd (process_post demo_env 1 post_text world1))"
    using sample_other by (simp add: prod_eq_iff)
  from other_post_is_dumped [OF t n r run] obtain pid where
    pid: "subscript post_text ''id'' = Inr pid" and
    wc: "write_calls (snd (process_post demo_env 1 post_text world1)) = write_calls world1
          @ [(resolve (cwd world1)
                (Path False (''other'' # components (''text_only'' @ ''-'' @ py_str demo_env pid @ ''.json''))),
              Text (json_dumps demo_env post_text @ [CHR 0x0A]))]"
    by blast
  from pid have "pid = JStr ''p2''" by (simp add: post_text_def)
  with wc have "write_calls (snd (process_post demo_env 1 post_text world1))
       = [(Path True [''home'', ''c1'', ''other'', ''text_only-p2.json''], Text (''{}'' @ [CHR 0x0A]))]"
    by (simp add: py_str_def components_def demo_env_def world1_def world0_def)
  with t n r show ?thesis by simp
qed

end
